theory Spec2Isabelle
  imports Main "HOL-Library.Word" "HOL-Library.Multiset"
begin

unbundle bit_operations_syntax

section \<open>Go values shared by the runtime half and the generator\<close>

text \<open>
  Errors are values. \<open>ErrNotExist\<close>, \<open>ErrInvalid\<close> and \<open>ErrPermission\<close> are the
  sentinels of package \<open>os\<close>, \<open>EOF\<close> is \<open>io.EOF\<close>; the two \<open>Seek\<close> errors are the
  ones \<open>bytes.Reader.Seek\<close> builds with \<open>errors.New\<close>; \<open>IOError\<close> is any other
  failure of the operating system.
\<close>

datatype error =
    ErrNotExist
  | ErrInvalid
  | ErrPermission
  | EOF
  | SeekInvalidWhence
  | SeekNegativePosition
  | IOError string

text \<open>A call either returns or panics (nil dereference, \<open>makeslice\<close>, index out of range).\<close>

datatype 'a outcome = Returns 'a | Panics string

text \<open>Go's \<open>int\<close> and \<open>int64\<close> are 64-bit two's complement: arithmetic wraps.\<close>

definition wrap64 :: "int \<Rightarrow> int" where
  "wrap64 x = (x + 2 ^ 63) mod 2 ^ 64 - 2 ^ 63"

text \<open>
  \<open>os.FileMode\<close> is a \<open>uint32\<close>; \<open>ModeDir\<close> is its most significant bit
  (\<open>1 << (32 - 1 - iota)\<close> with \<open>iota = 0\<close>) and \<open>IsDir\<close> tests it.
\<close>

type_synonym FileMode = "32 word"

definition ModeDir :: FileMode where
  "ModeDir = push_bit 31 1"

definition FileMode_IsDir :: "FileMode \<Rightarrow> bool" where
  "FileMode_IsDir m = (m AND ModeDir \<noteq> 0)"

text \<open>
  A \<open>time.Time\<close> as seconds since the Unix epoch and a nanosecond offset in
  \<open>[0, 999999999]\<close>. \<open>Unix\<close> and \<open>UnixNano\<close> are the two accessors the generator calls:
  the first returns the seconds, the second the \<^emph>\<open>total\<close> number of nanoseconds since the
  epoch (as an \<open>int64\<close>). \<open>time_Unix sec nsec\<close> is the constructor \<open>time.Unix\<close>, which
  accepts an \<open>nsec\<close> outside \<open>[0, 999999999]\<close> and carries it into the seconds.
\<close>

record Time =
  t_sec :: int
  t_nsec :: int

definition Time_Unix :: "Time \<Rightarrow> int" where
  "Time_Unix t = t_sec t"

definition Time_UnixNano :: "Time \<Rightarrow> int" where
  "Time_UnixNano t = wrap64 (t_sec t * 1000000000 + t_nsec t)"

definition time_Unix :: "int \<Rightarrow> int \<Rightarrow> Time" where
  "time_Unix sec nsec =
     \<lparr>t_sec = wrap64 (sec + nsec div 1000000000), t_nsec = nsec mod 1000000000\<rparr>"

section \<open>Package \<open>path\<close>\<close>

text \<open>
  \<open>path.Clean\<close>, \<open>path.Join\<close>, \<open>path.Dir\<close> and \<open>path.Base\<close> of the Go library, on
  slash-separated byte strings. \<open>Clean\<close> works on the components between slashes: empty
  components and \<open>.\<close> vanish, \<open>..\<close> removes the component before it, is dropped at the
  root of a rooted path and kept at the front of a relative one; an empty result is \<open>.\<close>.
\<close>

primrec split_slash :: "string \<Rightarrow> string list" where
  "split_slash [] = [[]]"
| "split_slash (c # cs) =
     (if c = CHR ''/'' then [] # split_slash cs
      else (case split_slash cs of [] \<Rightarrow> [[c]] | x # xs \<Rightarrow> (c # x) # xs))"

primrec join_slash :: "string list \<Rightarrow> string" where
  "join_slash [] = []"
| "join_slash (x # xs) = (if xs = [] then x else x @ ''/'' @ join_slash xs)"

definition clean_step :: "bool \<Rightarrow> string list \<Rightarrow> string \<Rightarrow> string list" where
  "clean_step rooted stack c =
     (if c = [] \<or> c = ''.'' then stack
      else if c = ''..'' then
        (case stack of
           [] \<Rightarrow> if rooted then [] else [''..'']
         | t # ts \<Rightarrow> if t = ''..'' then ''..'' # stack else ts)
      else c # stack)"

definition Clean :: "string \<Rightarrow> string" where
  "Clean p =
     (if p = [] then ''.''
      else
        let rooted = (hd p = CHR ''/'');
            out = rev (foldl (clean_step rooted) [] (split_slash p));
            s = (if rooted then ''/'' else []) @ join_slash out
        in if s = [] then ''.'' else s)"

definition Join :: "string \<Rightarrow> string \<Rightarrow> string" where
  "Join a b =
     (if a = [] \<and> b = [] then []
      else if a = [] then Clean b
      else if b = [] then Clean a
      else Clean (a @ ''/'' @ b))"

text \<open>
  \<open>after_last_slash p\<close> is what follows the last slash of \<open>p\<close>, all of \<open>p\<close> when it has
  none: \<open>path.Split\<close> cuts \<open>p\<close> in front of it. \<open>Dir\<close> cleans the part before the cut,
  \<open>Base\<close> is the part after it once the trailing slashes are gone.
\<close>

primrec after_last_slash :: "string \<Rightarrow> string" where
  "after_last_slash [] = []"
| "after_last_slash (c # cs) =
     (if CHR ''/'' \<in> set cs then after_last_slash cs
      else if c = CHR ''/'' then cs else c # cs)"

definition Dir :: "string \<Rightarrow> string" where
  "Dir p = Clean (take (length p - length (after_last_slash p)) p)"

definition strip_trailing_slashes :: "string \<Rightarrow> string" where
  "strip_trailing_slashes p = rev (dropWhile (\<lambda>c. c = CHR ''/'') (rev p))"

definition Base :: "string \<Rightarrow> string" where
  "Base p =
     (if p = [] then ''.''
      else
        let q = after_last_slash (strip_trailing_slashes p)
        in if q = [] then ''/'' else q)"

section \<open>The runtime half: \<open>File\<close> and \<open>FileSystem\<close>\<close>

text \<open>
  A \<open>bytes.Reader\<close>: the slice it reads, the position and the index of the previous rune.
  \<open>Reader_Read r n\<close> is \<open>r.Read(b)\<close> for a buffer \<open>b\<close> of length \<open>n\<close>: it returns the bytes
  copied into \<open>b\<close>, the error, and the reader afterwards.
\<close>

record Reader =
  r_s :: string
  r_i :: int
  r_prevRune :: int

definition NewReader :: "string \<Rightarrow> Reader" where
  "NewReader b = \<lparr>r_s = b, r_i = 0, r_prevRune = - 1\<rparr>"

definition Reader_Read :: "Reader \<Rightarrow> nat \<Rightarrow> (string \<times> error option) \<times> Reader" where
  "Reader_Read r n =
     (if r_i r \<ge> int (length (r_s r)) then (([], Some EOF), r)
      else
        let out = take n (drop (nat (r_i r)) (r_s r))
        in ((out, None), r\<lparr>r_i := r_i r + int (length out), r_prevRune := - 1\<rparr>))"

definition Reader_Seek :: "Reader \<Rightarrow> int \<Rightarrow> int \<Rightarrow> (int \<times> error option) \<times> Reader" where
  "Reader_Seek r offset whence =
     (let r1 = r\<lparr>r_prevRune := - 1\<rparr> in
      if whence \<noteq> 0 \<and> whence \<noteq> 1 \<and> whence \<noteq> 2 then ((0, Some SeekInvalidWhence), r1)
      else
        let abs = (if whence = 0 then offset
                   else if whence = 1 then wrap64 (r_i r + offset)
                   else wrap64 (int (length (r_s r)) + offset))
        in if abs < 0 then ((0, Some SeekNegativePosition), r1)
           else ((abs, None), r1\<lparr>r_i := abs\<rparr>))"

text \<open>
  \<open>File\<close> and \<open>FileSystem\<close> as in the source. \<open>FileSystem.Files\<close> holds \<^emph>\<open>pointers\<close> to
  \<open>File\<close>s and a \<open>File\<close> points back to its \<open>FileSystem\<close>, so both live in a store and are
  named by their addresses. The \<open>bytes.Reader\<close> behind \<open>buf\<close> is only ever reached through
  the one \<open>File\<close> that created it, so it is kept in place; \<open>None\<close> is the nil pointer.
  (The field \<open>Compressed\<close> of \<open>FileSystem\<close> is \<open>FsCompressed\<close> here: the generator has
  an option of the same name.)
\<close>

record File =
  Path :: string
  FileMode :: FileMode
  MTime :: Time
  Data :: string
  fs :: "nat option"
  buf :: "Reader option"

record FileSystem =
  Dirs :: "string \<rightharpoonup> string list"
  Files :: "string \<rightharpoonup> nat"
  FsCompressed :: bool

record heap =
  files :: "nat \<rightharpoonup> File"
  fsystems :: "nat \<rightharpoonup> FileSystem"

subsection \<open>\<open>os.FileInfo\<close> on a \<open>File\<close>\<close>

definition Name :: "File \<Rightarrow> string" where
  "Name f = Base (Path f)"

definition Mode :: "File \<Rightarrow> FileMode" where
  "Mode f = FileMode f"

definition ModTime :: "File \<Rightarrow> Time" where
  "ModTime f = MTime f"

definition IsDir :: "File \<Rightarrow> bool" where
  "IsDir f = FileMode_IsDir (FileMode f)"

definition Size :: "File \<Rightarrow> int" where
  "Size f = int (length (Data f))"

subsection \<open>\<open>FileSystem.Open\<close> and \<open>FileSystem.readDir\<close>\<close>

text \<open>
  \<open>Open\<close>: \<open>fi\<close> is the pointer found in \<open>Files\<close>; \<open>ret := fi\<close> copies that pointer, and
  \<open>ret.buf = bytes.NewReader(ret.Data)\<close> writes through it, to the one \<open>File\<close> in the
  store. The handle returned is the pointer.
\<close>

definition Open :: "heap \<Rightarrow> nat \<Rightarrow> string \<Rightarrow> (error + nat) outcome \<times> heap" where
  "Open st f path =
     (case fsystems st f of
        None \<Rightarrow> (Panics ''nil pointer dereference'', st)
      | Some F \<Rightarrow>
          (case Files F path of
             Some fi \<Rightarrow>
               (case files st fi of
                  None \<Rightarrow> (Panics ''nil pointer dereference'', st)
                | Some file \<Rightarrow>
                    if \<not> IsDir file then
                      let ret = fi;
                          st' = st\<lparr>files := (files st)(ret \<mapsto> file\<lparr>buf := Some (NewReader (Data file))\<rparr>)\<rparr>
                      in (Returns (Inr ret), st')
                    else (Returns (Inr fi), st))
           | None \<Rightarrow> (Returns (Inl ErrNotExist), st)))"

text \<open>
  \<open>readDir\<close>: \<open>maxl\<close> is clamped to the length of the listing, \<open>index\<close> is not.
  \<open>make\<close> panics when the capacity is negative or when the capacity times the size of
  an element exceeds the largest allocation of the runtime: an \<open>os.FileInfo\<close> is an
  interface value of 16 bytes and the bound is \<open>2 ^ 48\<close> bytes on the 64-bit platforms, so
  \<open>max_slice_cap\<close> elements (running out of memory below that bound is not modelled).
  \<open>d[i]\<close> panics for a negative \<open>i\<close>. An element of the result is the pointer \<open>Files\<close>
  has for the joined path (\<open>None\<close>, the nil pointer, when it has none).
\<close>

definition max_slice_cap :: int where
  "max_slice_cap = 2 ^ 44"

definition readDir ::
  "FileSystem \<Rightarrow> string \<Rightarrow> int \<Rightarrow> int \<Rightarrow> (error + nat option list) outcome" where
  "readDir F p index cnt =
     (case Dirs F p of
        Some d \<Rightarrow>
          let maxl = wrap64 (index + cnt);
              maxl = (if maxl > int (length d) then int (length d) else maxl);
              cap = wrap64 (maxl - index)
          in if cap < 0 \<or> cap > max_slice_cap then Panics ''makeslice: cap out of range''
             else if index < maxl \<and> index < 0 then Panics ''index out of range''
             else Returns (Inr (map (\<lambda>i. Files F (Join p (d ! nat i))) [index .. maxl - 1]))
      | None \<Rightarrow> Returns (Inl ErrNotExist))"

subsection \<open>\<open>http.File\<close> on a \<open>File\<close>\<close>

text \<open>
  The methods have pointer receivers: the handle \<open>h\<close> is the address of the \<open>File\<close>, and a
  method that reads or writes a field of a \<open>File\<close> that is not there panics.
  \<open>Read\<close> and \<open>Seek\<close> create the reader when \<open>buf\<close> is nil and then delegate to it;
  neither looks at \<open>IsDir\<close>. \<open>Readdir\<close> does. Its call of \<open>readDir\<close> in the source passes
  the path only, so the two integers \<open>readDir\<close> takes are arguments of \<open>Readdir\<close> here.
\<close>

definition Close :: "heap \<Rightarrow> nat \<Rightarrow> error option outcome \<times> heap" where
  "Close st h =
     (case files st h of
        None \<Rightarrow> (Panics ''nil pointer dereference'', st)
      | Some f \<Rightarrow> (Returns None, st\<lparr>files := (files st)(h \<mapsto> f\<lparr>buf := None\<rparr>)\<rparr>))"

definition Stat :: "heap \<Rightarrow> nat \<Rightarrow> (nat \<times> error option) outcome \<times> heap" where
  "Stat st h = (Returns (h, None), st)"

definition Readdir ::
  "heap \<Rightarrow> nat \<Rightarrow> int \<Rightarrow> int \<Rightarrow> (error + nat option list) outcome \<times> heap" where
  "Readdir st h index cnt =
     (case files st h of
        None \<Rightarrow> (Panics ''nil pointer dereference'', st)
      | Some f \<Rightarrow>
          if IsDir f then
            (case fs f of
               None \<Rightarrow> (Panics ''nil pointer dereference'', st)
             | Some a \<Rightarrow>
                 (case fsystems st a of
                    None \<Rightarrow> (Panics ''nil pointer dereference'', st)
                  | Some F \<Rightarrow> (readDir F (Path f) index cnt, st)))
          else (Returns (Inl ErrInvalid), st))"

definition Read :: "heap \<Rightarrow> nat \<Rightarrow> nat \<Rightarrow> (string \<times> error option) outcome \<times> heap" where
  "Read st h n =
     (case files st h of
        None \<Rightarrow> (Panics ''nil pointer dereference'', st)
      | Some f \<Rightarrow>
          let f1 = (if buf f = None then f\<lparr>buf := Some (NewReader (Data f))\<rparr> else f)
          in (case buf f1 of
                None \<Rightarrow> (Panics ''nil pointer dereference'', st)
              | Some r \<Rightarrow>
                  let (res, r') = Reader_Read r n
                  in (Returns res, st\<lparr>files := (files st)(h \<mapsto> f1\<lparr>buf := Some r'\<rparr>)\<rparr>)))"

definition Seek :: "heap \<Rightarrow> nat \<Rightarrow> int \<Rightarrow> int \<Rightarrow> (int \<times> error option) outcome \<times> heap" where
  "Seek st h offset whence =
     (case files st h of
        None \<Rightarrow> (Panics ''nil pointer dereference'', st)
      | Some f \<Rightarrow>
          let f1 = (if buf f = None then f\<lparr>buf := Some (NewReader (Data f))\<rparr> else f)
          in (case buf f1 of
                None \<Rightarrow> (Panics ''nil pointer dereference'', st)
              | Some r \<Rightarrow>
                  let (res, r') = Reader_Seek r offset whence
                  in (Returns res, st\<lparr>files := (files st)(h \<mapsto> f1\<lparr>buf := Some r'\<rparr>)\<rparr>)))"

text \<open>
  A caller's full sequential read of a handle: \<open>Read\<close> into a buffer of \<open>k\<close> bytes until
  it reports \<open>EOF\<close>, collecting what was read. The number of rounds is bounded by the
  first argument; \<open>None\<close> means the bound was reached (or a read failed otherwise).
\<close>

fun read_to_EOF :: "nat \<Rightarrow> heap \<Rightarrow> nat \<Rightarrow> nat \<Rightarrow> string option" where
  "read_to_EOF 0 st h k = None"
| "read_to_EOF (Suc fuel) st h k =
     (case Read st h k of
        (Returns (bs, None), st') \<Rightarrow> map_option ((@) bs) (read_to_EOF fuel st' h k)
      | (Returns (bs, Some e), st') \<Rightarrow> (if e = EOF then Some bs else None)
      | (Panics m, st') \<Rightarrow> None)"

text \<open>The read position of a handle, as \<open>Seek(0, 1)\<close> would report it without moving.\<close>

definition position :: "heap \<Rightarrow> nat \<Rightarrow> int option" where
  "position st h =
     (case files st h of
        None \<Rightarrow> None
      | Some f \<Rightarrow> (case buf f of None \<Rightarrow> Some 0 | Some r \<Rightarrow> Some (r_i r)))"

subsection \<open>A small file system in the store\<close>

text \<open>
  The root directory \<open>/\<close> at address 1 with one regular file \<open>/b.txt\<close> (content \<open>hi\<close>,
  mode \<open>0644\<close>) at address 0; the \<open>FileSystem\<close> itself at address 0 of its own store.
\<close>

definition example_file :: File where
  "example_file =
     \<lparr>Path = ''/b.txt'', FileMode = 0x1A4, MTime = \<lparr>t_sec = 1, t_nsec = 0\<rparr>,
      Data = ''hi'', fs = Some 0, buf = None\<rparr>"

definition example_dir :: File where
  "example_dir =
     \<lparr>Path = ''/'', FileMode = 0x800001ED, MTime = \<lparr>t_sec = 1, t_nsec = 0\<rparr>,
      Data = [], fs = Some 0, buf = None\<rparr>"

definition example_fs :: FileSystem where
  "example_fs =
     \<lparr>Dirs = [''/'' \<mapsto> [''b.txt'']], Files = [''/'' \<mapsto> 1, ''/b.txt'' \<mapsto> 0],
      FsCompressed = False\<rparr>"

definition example_heap :: heap where
  "example_heap =
     \<lparr>files = [0 \<mapsto> example_file, 1 \<mapsto> example_dir], fsystems = [0 \<mapsto> example_fs]\<rparr>"

section \<open>The generator\<close>

subsection \<open>What the generator sees of the real file system\<close>

text \<open>
  An \<open>os.FileInfo\<close> as returned by \<open>os.Stat\<close> and \<open>Readdir\<close>. A \<open>node\<close> is a path of
  the real file system as \<open>addPath\<close> meets it: its \<open>FileInfo\<close> and, used only when that
  says directory, the error of \<open>os.Open\<close> on it, the error of \<open>Readdir(-1)\<close> on the
  opened directory, and the entries \<open>Readdir\<close> returns, each with what lies below it.
\<close>

record FileInfo =
  fi_Name :: string
  fi_Size :: int
  fi_Mode :: FileMode
  fi_ModTime :: Time

definition FileInfo_IsDir :: "FileInfo \<Rightarrow> bool" where
  "FileInfo_IsDir info = FileMode_IsDir (fi_Mode info)"

datatype node = Node FileInfo "error option" "error option" "node list"

text \<open>
  The functions of the outside world \<open>Write\<close> calls: \<open>os.Open\<close> followed by reading the
  file to its end (either may fail), gzip compression of a byte string, the SHA-1 digest of
  a string printed with \<open>%x\<close>, \<open>%#v\<close> of a string, and \<open>format.Source\<close>.
\<close>

record externals =
  os_Open :: "string \<Rightarrow> error + (error + string)"
  gzip_compress :: "string \<Rightarrow> string"
  sha1_hex :: "string \<Rightarrow> string"
  go_quote :: "string \<Rightarrow> string"
  format_Source :: "string \<Rightarrow> error + string"

subsection \<open>\<open>Generator\<close>, \<open>addPath\<close> and \<open>Add\<close>\<close>

text \<open>The two maps may be nil (\<open>None\<close>); reading a nil map reads an empty one.\<close>

record Generator =
  PackageName :: string
  VariableName :: string
  Compressed :: bool
  StripPrefix :: string
  fsDirsMap :: "(string \<rightharpoonup> string list) option"
  fsFilesMap :: "(string \<rightharpoonup> FileInfo) option"

definition map_of_nil :: "('k \<rightharpoonup> 'v) option \<Rightarrow> ('k \<rightharpoonup> 'v)" where
  "map_of_nil m = (case m of None \<Rightarrow> Map.empty | Some f \<Rightarrow> f)"

text \<open>
  \<open>addPath\<close>. The error of \<open>os.Open\<close> is assigned to \<open>err\<close> and overwritten by the
  \<open>Readdir\<close> call on the next line before anything reads it; when \<open>os.Open\<close> failed,
  \<open>f\<close> is nil and \<open>Readdir\<close> on a nil \<open>*os.File\<close> returns \<open>os.ErrInvalid\<close>. Only the
  branch for a non-directory appends a name to the listing of \<open>parent\<close>. \<open>addPaths\<close> is
  the loop over the entries of a directory.
\<close>

fun addPath :: "string \<Rightarrow> node \<Rightarrow> Generator \<Rightarrow> error option \<times> Generator"
  and addPaths :: "string \<Rightarrow> node list \<Rightarrow> Generator \<Rightarrow> error option \<times> Generator" where
  "addPath parent (Node info open_err readdir_err fi) x =
     (let p = Join parent (fi_Name info);
          x = (if fsFilesMap x = None then x\<lparr>fsFilesMap := Some Map.empty\<rparr> else x);
          x = (if fsDirsMap x = None then x\<lparr>fsDirsMap := Some Map.empty\<rparr> else x);
          x = x\<lparr>fsFilesMap := Some ((map_of_nil (fsFilesMap x))(p \<mapsto> info))\<rparr>
      in if FileInfo_IsDir info then
           (let err = (case open_err of Some e \<Rightarrow> Some ErrInvalid | None \<Rightarrow> readdir_err)
            in case err of
                 Some e \<Rightarrow> (Some e, x)
               | None \<Rightarrow>
                   addPaths p fi (x\<lparr>fsDirsMap := Some ((map_of_nil (fsDirsMap x))(p \<mapsto> []))\<rparr>))
         else
           (None,
            x\<lparr>fsDirsMap :=
                Some ((map_of_nil (fsDirsMap x))
                        (parent \<mapsto>
                           (case map_of_nil (fsDirsMap x) parent of None \<Rightarrow> [] | Some l \<Rightarrow> l)
                             @ [fi_Name info]))\<rparr>))"
| "addPaths p [] x = (None, x)"
| "addPaths p (f # fi) x =
     (case addPath p f x of
        (Some err, x') \<Rightarrow> (Some err, x')
      | (None, x') \<Rightarrow> addPaths p fi x')"

text \<open>\<open>Add\<close>; \<open>os_Stat\<close> answers \<open>os.Stat\<close> with an error or with the node at the path.\<close>

definition Add :: "(string \<Rightarrow> error + node) \<Rightarrow> string \<Rightarrow> Generator \<Rightarrow> error option \<times> Generator" where
  "Add os_Stat p x =
     (let p = Clean p
      in case os_Stat p of
           Inl err \<Rightarrow> (Some err, x)
         | Inr n \<Rightarrow> addPath (Dir p) n x)"

subsection \<open>Formatting\<close>

definition tab :: string where
  "tab = [CHR 0x09]"

definition nl :: string where
  "nl = [CHR 0x0A]"

definition dq :: string where
  "dq = [CHR 0x22]"

fun dec_nat :: "nat \<Rightarrow> string" where
  "dec_nat n =
     (if n < 10 then [''0123456789'' ! n]
      else dec_nat (n div 10) @ [''0123456789'' ! (n mod 10)])"

fun hex_nat :: "nat \<Rightarrow> string" where
  "hex_nat n =
     (if n < 16 then [''0123456789abcdef'' ! n]
      else hex_nat (n div 16) @ [''0123456789abcdef'' ! (n mod 16)])"

declare dec_nat.simps [simp del]

declare hex_nat.simps [simp del]

text \<open>\<open>%#v\<close> of an \<open>int64\<close>, of an \<open>os.FileMode\<close> (an unsigned integer: \<open>0x\<close> and lower-case
  hexadecimal digits) and of a \<open>bool\<close>.\<close>

definition show_int64 :: "int \<Rightarrow> string" where
  "show_int64 i = (if i < 0 then ''-'' @ dec_nat (nat (- i)) else dec_nat (nat i))"

definition show_FileMode :: "FileMode \<Rightarrow> string" where
  "show_FileMode m = ''0x'' @ hex_nat (unat m)"

definition show_bool :: "bool \<Rightarrow> string" where
  "show_bool b = (if b then ''true'' else ''false'')"

primrec join_with :: "string \<Rightarrow> string list \<Rightarrow> string" where
  "join_with sep [] = []"
| "join_with sep (x # xs) = (if xs = [] then x else x @ sep @ join_with sep xs)"

text \<open>
  \<open>for k, v := range m\<close> visits the keys of \<open>m\<close> in an order Go does not specify and
  changes from one loop to the next; the order is an argument, and \<open>enumerates\<close> says
  that it is an order of the keys of \<open>m\<close>. \<open>fmt\<close> prints a map key by key, in an order
  of its own. A \<open>schedule\<close> holds the orders of one run of \<open>Write\<close>.
\<close>

definition range_of :: "('k \<rightharpoonup> 'v) \<Rightarrow> 'k list \<Rightarrow> ('k \<times> 'v) list" where
  "range_of m ks = List.map_filter (\<lambda>k. map_option (Pair k) (m k)) ks"

definition enumerates :: "('k \<rightharpoonup> 'v) \<Rightarrow> 'k list \<Rightarrow> bool" where
  "enumerates m ks = (distinct ks \<and> set ks = dom m)"

record schedule =
  blob_order :: "string list"
  dirs_order :: "string list"
  print_order :: "string list"
  files_order :: "string list"

definition show_strings :: "externals \<Rightarrow> string list \<Rightarrow> string" where
  "show_strings E v = ''[]string{'' @ join_with '', '' (map (go_quote E) v) @ ''}''"

definition show_dirmap :: "externals \<Rightarrow> (string \<rightharpoonup> string list) \<Rightarrow> string list \<Rightarrow> string" where
  "show_dirmap E dirmap ks =
     ''map[string][]string{''
       @ join_with '', '' (map (\<lambda>(k, v). go_quote E k @ '':'' @ show_strings E v) (range_of dirmap ks))
       @ ''}''"

definition HasPrefix :: "string \<Rightarrow> string \<Rightarrow> bool" where
  "HasPrefix s prefix = (take (length prefix) s = prefix)"

definition TrimPrefix :: "string \<Rightarrow> string \<Rightarrow> string" where
  "TrimPrefix s prefix = (if HasPrefix s prefix then drop (length prefix) s else s)"

subsection \<open>\<open>Write\<close>\<close>

text \<open>
  The \<open>bytes.Buffer\<close> \<open>writer\<close> is the list of the chunks written to it, so
  \<open>writer.Bytes()\<close> is their concatenation. \<open>write_blobs\<close> is the loop of lines 119 to
  160: one declaration per regular file, the first unreadable file ends \<open>Write\<close>.
\<close>

fun write_blobs ::
  "externals \<Rightarrow> bool \<Rightarrow> string \<Rightarrow> (string \<times> FileInfo) list \<Rightarrow> (string \<rightharpoonup> string) \<Rightarrow> string list
   \<Rightarrow> error + ((string \<rightharpoonup> string) \<times> string list)" where
  "write_blobs E compressed variableName [] vnames writer = Inr (vnames, writer)"
| "write_blobs E compressed variableName ((k, v) # kvs) vnames writer =
     (if FileInfo_IsDir v then write_blobs E compressed variableName kvs vnames writer
      else
        case os_Open E k of
          Inl err \<Rightarrow> Inl err
        | Inr f \<Rightarrow>
            (case f of
               Inl err \<Rightarrow> Inl err
             | Inr content \<Rightarrow>
                 let data = (if compressed then gzip_compress E content else content);
                     vname = ''__'' @ variableName @ sha1_hex E k
                 in write_blobs E compressed variableName kvs (vnames(k \<mapsto> vname))
                      (writer @ [''var '' @ vname @ '' = []byte('' @ go_quote E data @ '')'' @ nl])))"

definition blob_pass ::
  "externals \<Rightarrow> string list \<Rightarrow> string \<Rightarrow> Generator
   \<Rightarrow> error + ((string \<rightharpoonup> string) \<times> string list)" where
  "blob_pass E order variableName x =
     (case fsFilesMap x of
        None \<Rightarrow> Inr (Map.empty, [])
      | Some m \<Rightarrow>
          (case write_blobs E (Compressed x) variableName (range_of m order) Map.empty [] of
             Inl err \<Rightarrow> Inl err
           | Inr (vnames, writer) \<Rightarrow> Inr (vnames, writer @ [nl])))"

text \<open>Lines 170 to 176: a nil map becomes an empty one.\<close>

definition make_maps :: "Generator \<Rightarrow> Generator" where
  "make_maps x =
     (let x = (if fsDirsMap x = None then x\<lparr>fsDirsMap := Some Map.empty\<rparr> else x)
      in if fsFilesMap x = None then x\<lparr>fsFilesMap := Some Map.empty\<rparr> else x)"

text \<open>Lines 178 to 198: the directory-listing mapping that is printed.\<close>

fun build_dirmap ::
  "string \<Rightarrow> (string \<times> string list) list \<Rightarrow> (string \<rightharpoonup> string list) \<Rightarrow> (string \<rightharpoonup> string list)" where
  "build_dirmap prefix [] dirmap = dirmap"
| "build_dirmap prefix ((k, v) # kvs) dirmap =
     (let vv = map (\<lambda>vi. let vvi = TrimPrefix vi prefix in if length vvi = 0 then ''/'' else vvi) v;
          kk = TrimPrefix k prefix;
          kk = (if length kk = 0 then ''/'' else kk)
      in build_dirmap prefix kvs (dirmap(kk \<mapsto> vv)))"

definition dirmap_of :: "string list \<Rightarrow> Generator \<Rightarrow> (string \<rightharpoonup> string list)" where
  "dirmap_of order x =
     build_dirmap (StripPrefix x) (range_of (map_of_nil (fsDirsMap x)) order) Map.empty"

text \<open>
  Lines 204 to 224: one entry per key of \<open>fsFilesMap\<close>. \<open>file_entry\<close> holds the values
  the \<open>Fprintf\<close> calls are given, \<open>print_entry\<close> is what they write.
\<close>

record entry =
  e_key :: string
  e_Path :: string
  e_FileMode :: FileMode
  e_MTime_sec :: int
  e_MTime_nsec :: int
  e_Data :: "string option"

definition file_entry :: "string \<Rightarrow> (string \<rightharpoonup> string) \<Rightarrow> string \<Rightarrow> FileInfo \<Rightarrow> entry" where
  "file_entry prefix vnames k v =
     (let kk = TrimPrefix k prefix;
          kk = (if length kk = 0 then ''/'' else kk);
          mt = fi_ModTime v
      in \<lparr>e_key = kk, e_Path = kk, e_FileMode = fi_Mode v,
          e_MTime_sec = Time_Unix mt, e_MTime_nsec = Time_UnixNano mt,
          e_Data = (if \<not> FileInfo_IsDir v
                    then Some (case vnames k of None \<Rightarrow> [] | Some vname \<Rightarrow> vname)
                    else None)\<rparr>)"

definition print_entry :: "externals \<Rightarrow> entry \<Rightarrow> string" where
  "print_entry E e =
     tab @ tab @ tab @ go_quote E (e_key e) @ '': &assets.File{'' @ nl
     @ tab @ tab @ tab @ tab @ ''Path:     '' @ go_quote E (e_Path e) @ '','' @ nl
     @ tab @ tab @ tab @ tab @ ''FileMode: '' @ show_FileMode (e_FileMode e) @ '','' @ nl
     @ tab @ tab @ tab @ tab @ ''MTime:    time.Unix('' @ show_int64 (e_MTime_sec e) @ '', ''
         @ show_int64 (e_MTime_nsec e) @ ''),'' @ nl
     @ (case e_Data e of
          Some vname \<Rightarrow> tab @ tab @ tab @ tab @ ''Data:     '' @ vname @ '','' @ nl
        | None \<Rightarrow> [])
     @ tab @ tab @ tab @ ''},'' @ nl"

definition file_entries :: "string list \<Rightarrow> (string \<rightharpoonup> string) \<Rightarrow> Generator \<Rightarrow> entry list" where
  "file_entries order vnames x =
     map (\<lambda>(k, v). file_entry (StripPrefix x) vnames k v)
       (range_of (map_of_nil (fsFilesMap x)) order)"

text \<open>
  \<open>Write\<close> returns the error, or the text it wrote to \<open>wr\<close>, and the generator, whose
  maps it may have made. \<open>raw_chunks\<close> is \<open>writer\<close> before \<open>format.Source\<close> is called
  (a declaration or an entry literal is one chunk), \<open>raw_text\<close> is \<open>writer.Bytes()\<close>.
\<close>

definition header :: "string \<Rightarrow> string list" where
  "header p =
     [''package '' @ p @ nl @ nl,
      ''import ('' @ nl,
      tab @ dq @ ''github.com/jessevdk/go-assets'' @ dq @ nl,
      tab @ dq @ ''time'' @ dq @ nl,
      '')'' @ nl,
      nl]"

definition raw_chunks ::
  "externals \<Rightarrow> schedule \<Rightarrow> Generator \<Rightarrow> error + string list" where
  "raw_chunks E S x =
     (let p = (if length (PackageName x) = 0 then ''main'' else PackageName x);
          variableName = (if length (VariableName x) = 0 then ''Assets'' else VariableName x);
          writer = header p
      in case blob_pass E (blob_order S) variableName x of
           Inl err \<Rightarrow> Inl err
         | Inr (vnames, blobs) \<Rightarrow>
             let writer = writer @ blobs;
                 writer = writer @
                   [''var '' @ variableName @ '' assets.FileSystem'' @ nl @ nl,
                    ''func init() {'' @ nl,
                    tab @ variableName @ '' = assets.FileSystem{'' @ nl];
                 x = make_maps x;
                 dirmap = dirmap_of (dirs_order S) x;
                 writer = writer @
                   [tab @ tab @ ''Dirs: '' @ show_dirmap E dirmap (print_order S) @ '','' @ nl,
                    tab @ tab @ ''Files: map[string]*assets.File{'' @ nl];
                 writer = writer @ map (print_entry E) (file_entries (files_order S) vnames x);
                 writer = writer @
                   [tab @ tab @ ''},'' @ nl,
                    tab @ tab @ ''Compressed: '' @ show_bool (Compressed x) @ '','' @ nl,
                    tab @ ''}'' @ nl,
                    ''}'' @ nl]
             in Inr writer)"

definition raw_text :: "externals \<Rightarrow> schedule \<Rightarrow> Generator \<Rightarrow> error + string" where
  "raw_text E S x =
     (case raw_chunks E S x of
        Inl err \<Rightarrow> Inl err
      | Inr writer \<Rightarrow> Inr (concat writer))"

definition Write :: "externals \<Rightarrow> schedule \<Rightarrow> Generator \<Rightarrow> (error + string) \<times> Generator" where
  "Write E S x =
     (case raw_text E S x of
        Inl err \<Rightarrow> (Inl err, x)
      | Inr text \<Rightarrow>
          (case format_Source E text of
             Inl err \<Rightarrow> (Inl err, make_maps x)
           | Inr ret \<Rightarrow> (Inr ret, make_maps x)))"

text \<open>
  The \<open>File\<close> that the emitted composite literal of an entry denotes when the generated
  \<open>init\<close> runs: \<open>time.Unix\<close> is applied to the two printed integers, \<open>Data\<close> is the byte
  string declared under the printed identifier, the fields not mentioned are zero.
\<close>

definition run_entry :: "(string \<rightharpoonup> string) \<Rightarrow> entry \<Rightarrow> File" where
  "run_entry blobs e =
     \<lparr>Path = e_Path e, FileMode = e_FileMode e,
      MTime = time_Unix (e_MTime_sec e) (e_MTime_nsec e),
      Data = (case e_Data e of
                None \<Rightarrow> []
              | Some vname \<Rightarrow> (case blobs vname of None \<Rightarrow> [] | Some d \<Rightarrow> d)),
      fs = None, buf = None\<rparr>"

subsection \<open>A small tree on the real file system\<close>

text \<open>
  The directory \<open>a\<close> with the regular file \<open>a/b.txt\<close> (content \<open>hi\<close>) and the empty
  directory \<open>a/c\<close>; nothing else exists. \<open>example_generator\<close> has had no path added and
  strips the prefix \<open>a\<close>.
\<close>

definition info_a :: FileInfo where
  "info_a = \<lparr>fi_Name = ''a'', fi_Size = 4096, fi_Mode = 0x800001ED,
             fi_ModTime = \<lparr>t_sec = 1, t_nsec = 0\<rparr>\<rparr>"

definition info_b :: FileInfo where
  "info_b = \<lparr>fi_Name = ''b.txt'', fi_Size = 2, fi_Mode = 0x1A4,
             fi_ModTime = \<lparr>t_sec = 1, t_nsec = 0\<rparr>\<rparr>"

definition info_c :: FileInfo where
  "info_c = \<lparr>fi_Name = ''c'', fi_Size = 4096, fi_Mode = 0x800001ED,
             fi_ModTime = \<lparr>t_sec = 1, t_nsec = 0\<rparr>\<rparr>"

definition tree_a :: node where
  "tree_a = Node info_a None None [Node info_b None None [], Node info_c None None []]"

definition example_Stat :: "string \<Rightarrow> error + node" where
  "example_Stat p = (if p = ''a'' then Inr tree_a else Inl ErrNotExist)"

definition example_generator :: Generator where
  "example_generator =
     \<lparr>PackageName = [], VariableName = [], Compressed = False, StripPrefix = ''a'',
      fsDirsMap = None, fsFilesMap = None\<rparr>"

text \<open>The same tree when \<open>a/c\<close> cannot be opened (a directory without read permission).\<close>

definition tree_a_locked :: node where
  "tree_a_locked =
     Node info_a None None [Node info_b None None [], Node info_c (Some ErrPermission) None []]"

definition locked_Stat :: "string \<Rightarrow> error + node" where
  "locked_Stat p = (if p = ''a'' then Inr tree_a_locked else Inl ErrNotExist)"

text \<open>
  Stand-ins for the outside world of the examples: \<open>a/b.txt\<close> reads as \<open>hi\<close>, the
  compressor and the canonicalizer leave their input as it is, a string is quoted by
  putting it between double quotes (what \<open>%#v\<close> does to a string of plain printable
  characters), and the digest of a path is its hexadecimal dump.
\<close>

definition example_externals :: externals where
  "example_externals =
     \<lparr>os_Open = (\<lambda>k. if k = ''a/b.txt'' then Inr (Inr ''hi'') else Inl ErrNotExist),
      gzip_compress = (\<lambda>s. s),
      sha1_hex = (\<lambda>k. concat (map (\<lambda>c. hex_nat (of_char c)) k)),
      go_quote = (\<lambda>s. dq @ s @ dq),
      format_Source = Inr\<rparr>"

text \<open>The state of the generator once the tree under \<open>a\<close> has been collected, and two
  schedules for serializing it.\<close>

definition collected_generator :: Generator where
  "collected_generator =
     \<lparr>PackageName = [], VariableName = [], Compressed = False, StripPrefix = ''a'',
      fsDirsMap = Some [''a'' \<mapsto> [''b.txt''], ''a/c'' \<mapsto> []],
      fsFilesMap = Some [''a'' \<mapsto> info_a, ''a/b.txt'' \<mapsto> info_b, ''a/c'' \<mapsto> info_c]\<rparr>"

definition schedule_1 :: schedule where
  "schedule_1 =
     \<lparr>blob_order = [''a'', ''a/b.txt'', ''a/c''], dirs_order = [''a'', ''a/c''],
      print_order = [''/'', ''/c''], files_order = [''a'', ''a/b.txt'', ''a/c'']\<rparr>"

definition schedule_2 :: schedule where
  "schedule_2 =
     \<lparr>blob_order = [''a'', ''a/b.txt'', ''a/c''], dirs_order = [''a'', ''a/c''],
      print_order = [''/'', ''/c''], files_order = [''a/c'', ''a/b.txt'', ''a'']\<rparr>"

text \<open>
  The transformation Claim C9 names, in its words: remove the prefix, and substitute the
  root marker when nothing is left.
\<close>

definition post_strip :: "string \<Rightarrow> string \<Rightarrow> string" where
  "post_strip prefix q = (if TrimPrefix q prefix = [] then ''/'' else TrimPrefix q prefix)"

definition schedule_3 :: schedule where
  "schedule_3 =
     \<lparr>blob_order = [''a'', ''a/b.txt'', ''a/c''], dirs_order = [''a/c'', ''a''],
      print_order = [''/'', ''/c''], files_order = [''a'', ''a/b.txt'', ''a/c'']\<rparr>"

text \<open>
  Two notions used to describe what \<open>write_blobs\<close> produces: the content of a file that
  can be opened and read, and the declaration written for it.
\<close>

definition file_content :: "externals \<Rightarrow> string \<Rightarrow> string option" where
  "file_content E k =
     (case os_Open E k of
        Inl err \<Rightarrow> None
      | Inr f \<Rightarrow> (case f of Inl err \<Rightarrow> None | Inr content \<Rightarrow> Some content))"

definition blob_line :: "externals \<Rightarrow> bool \<Rightarrow> string \<Rightarrow> string \<Rightarrow> string" where
  "blob_line E compressed variableName k =
     (case file_content E k of
        None \<Rightarrow> []
      | Some content \<Rightarrow>
          ''var '' @ (''__'' @ variableName @ sha1_hex E k) @ '' = []byte(''
            @ go_quote E (if compressed then gzip_compress E content else content) @ '')'' @ nl)"

text \<open>
  A generator to which no path was added and whose package name is not an identifier, and
  an outside world whose canonicalizer, like \<open>format.Source\<close>, parses the package clause:
  it rejects a text that does not begin with \<open>package\<close>, a space and an identifier
  (letters, digits and underscores, not beginning with a digit) up to the end of the line,
  and leaves any other text as it is.
\<close>

definition bad_package_generator :: Generator where
  "bad_package_generator =
     \<lparr>PackageName = ''1 2'', VariableName = [], Compressed = False, StripPrefix = [],
      fsDirsMap = None, fsFilesMap = None\<rparr>"

definition go_identifier :: "string \<Rightarrow> bool" where
  "go_identifier s =
     (s \<noteq> [] \<and> hd s \<notin> set ''0123456789'' \<and>
      list_all
        (\<lambda>c. c \<in> set ''abcdefghijklmnopqrstuvwxyzABCDEFGHIJKLMNOPQRSTUVWXYZ_0123456789'') s)"

definition parses_package_clause :: "string \<Rightarrow> bool" where
  "parses_package_clause src =
     (take 8 src = ''package '' \<and> go_identifier (takeWhile (\<lambda>c. c \<noteq> CHR 0x0A) (drop 8 src)))"

definition parsing_externals :: externals where
  "parsing_externals =
     example_externals
       \<lparr>format_Source :=
          (\<lambda>src. if parses_package_clause src then Inr src
                 else Inl (IOError ''expected IDENT''))\<rparr>"

text \<open>
  The file \<open>a/b.txt\<close> added on its own, the state of the generator afterwards, and the
  one schedule there is for serializing it.
\<close>

definition single_Stat :: "string \<Rightarrow> error + node" where
  "single_Stat p = (if p = ''a/b.txt'' then Inr (Node info_b None None []) else Inl ErrNotExist)"

definition single_generator :: Generator where
  "single_generator =
     \<lparr>PackageName = [], VariableName = [], Compressed = False, StripPrefix = ''a'',
      fsDirsMap = Some [''a'' \<mapsto> [''b.txt'']],
      fsFilesMap = Some [''a/b.txt'' \<mapsto> info_b]\<rparr>"

definition single_schedule :: schedule where
  "single_schedule =
     \<lparr>blob_order = [''a/b.txt''], dirs_order = [''a''], print_order = [''/''],
      files_order = [''a/b.txt'']\<rparr>"

section \<open>Properties of the runtime half\<close>

subsection \<open>Reading a handle\<close>

lemma Read_file:
  "files st h = Some f \<Longrightarrow>
   Read st h n =
     (let r = (case buf f of None \<Rightarrow> NewReader (Data f) | Some r \<Rightarrow> r);
          (res, r') = Reader_Read r n
      in (Returns res, st\<lparr>files := (files st)(h \<mapsto> f\<lparr>buf := Some r'\<rparr>)\<rparr>))"
  by (auto simp: Read_def Let_def split: option.splits prod.splits)

lemma read_to_EOF_cursor:
  "files st h = Some f \<Longrightarrow> 0 < k \<Longrightarrow>
   (case buf f of None \<Rightarrow> NewReader (Data f) | Some r \<Rightarrow> r) = r \<Longrightarrow>
   0 \<le> r_i r \<Longrightarrow> length (r_s r) - nat (r_i r) < fuel \<Longrightarrow>
   read_to_EOF fuel st h k = Some (drop (nat (r_i r)) (r_s r))"
proof (induction fuel arbitrary: st f r)
  case 0
  then show ?case by simp
next
  case (Suc fuel)
  show ?case
  proof (cases "r_i r \<ge> int (length (r_s r))")
    case True
    then show ?thesis
      using Suc.prems by (simp add: Read_file Reader_Read_def Let_def)
  next
    case False
    define out where "out = take k (drop (nat (r_i r)) (r_s r))"
    define r' where "r' = r\<lparr>r_i := r_i r + int (length out), r_prevRune := - 1\<rparr>"
    define st' where "st' = st\<lparr>files := (files st)(h \<mapsto> f\<lparr>buf := Some r'\<rparr>)\<rparr>"
    have rd: "Read st h k = (Returns (out, None), st')"
      using Suc.prems False by (simp add: Read_file Reader_Read_def Let_def out_def r'_def st'_def)
    have lt: "nat (r_i r) < length (r_s r)"
      using False Suc.prems(4) by linarith
    have len: "0 < length out"
      using lt Suc.prems(2) by (simp add: out_def)
    have pos': "nat (r_i r') = nat (r_i r) + length out"
      using Suc.prems(4) by (simp add: r'_def nat_add_distrib)
    have s': "r_s r' = r_s r"
      by (simp add: r'_def)
    have "read_to_EOF fuel st' h k = Some (drop (nat (r_i r')) (r_s r'))"
    proof (rule Suc.IH)
      show "files st' h = Some (f\<lparr>buf := Some r'\<rparr>)" by (simp add: st'_def)
      show "0 < k" by fact
      show "(case buf (f\<lparr>buf := Some r'\<rparr>) of None \<Rightarrow> NewReader (Data (f\<lparr>buf := Some r'\<rparr>)) | Some r \<Rightarrow> r) = r'"
        by simp
      show "0 \<le> r_i r'" using Suc.prems(4) by (simp add: r'_def)
      show "length (r_s r') - nat (r_i r') < fuel"
        using Suc.prems(5) len lt unfolding pos' s' by linarith
    qed
    moreover have "out @ drop (nat (r_i r')) (r_s r') = drop (nat (r_i r)) (r_s r)"
    proof -
      have "drop (nat (r_i r')) (r_s r') = drop (length out) (drop (nat (r_i r)) (r_s r))"
        unfolding pos' s' by (simp add: add.commute)
      also have "\<dots> = drop k (drop (nat (r_i r)) (r_s r))"
        by (cases "k \<le> length (drop (nat (r_i r)) (r_s r))") (simp_all add: out_def min_def)
      finally have e: "drop (nat (r_i r')) (r_s r') = drop k (drop (nat (r_i r)) (r_s r))" .
      show ?thesis
        unfolding e out_def by (rule append_take_drop_id)
    qed
    ultimately show ?thesis using rd by simp
  qed
qed

lemma example_file_not_dir: "\<not> IsDir example_file"
  by (simp add: IsDir_def example_file_def FileMode_IsDir_def ModeDir_def)

lemma example_dir_is_dir: "IsDir example_dir"
  by (simp add: IsDir_def example_dir_def FileMode_IsDir_def ModeDir_def)

lemma Close_file:
  "files st h = Some f \<Longrightarrow>
   Close st h = (Returns None, st\<lparr>files := (files st)(h \<mapsto> f\<lparr>buf := None\<rparr>)\<rparr>)"
  by (simp add: Close_def)

lemma Open_file:
  "fsystems st a = Some F \<Longrightarrow> Files F p = Some h \<Longrightarrow> files st h = Some f \<Longrightarrow> \<not> IsDir f \<Longrightarrow>
   Open st a p =
     (Returns (Inr h), st\<lparr>files := (files st)(h \<mapsto> f\<lparr>buf := Some (NewReader (Data f))\<rparr>)\<rparr>)"
  by (simp add: Open_def Let_def)

lemma Open_dir:
  "fsystems st a = Some F \<Longrightarrow> Files F p = Some h \<Longrightarrow> files st h = Some f \<Longrightarrow> IsDir f \<Longrightarrow>
   Open st a p = (Returns (Inr h), st)"
  by (simp add: Open_def Let_def)

lemma Read_fresh:
  "files st h = Some f \<Longrightarrow> buf f = None \<or> buf f = Some (NewReader (Data f)) \<Longrightarrow>
   fst (Read st h k) = Returns (take k (Data f), if Data f = [] then Some EOF else None)"
  by (auto simp: Read_file Reader_Read_def NewReader_def Let_def)

lemma position_Read_fresh:
  "files st h = Some f \<Longrightarrow> buf f = None \<or> buf f = Some (NewReader (Data f)) \<Longrightarrow>
   position (snd (Read st h k)) h = Some (int (length (take k (Data f))))"
  by (auto simp: Read_file Reader_Read_def NewReader_def Let_def position_def)

text \<open>
  Claim C7. For every file handle, \<open>Close\<close> succeeds (it returns the nil error), and a
  \<open>Read\<close> after it does not fail: it creates a new cursor at position 0, so it returns the
  first bytes of the file's data (end-of-file only for an empty file), a full sequential
  read after \<open>Close\<close> yields the whole data, and both are exactly what a fresh \<open>Open\<close> of
  the file's path gives.
\<close>

theorem close_then_read_restarts:
  "files st h = Some f \<Longrightarrow> 0 < k \<Longrightarrow>
   fst (Close st h) = Returns None \<and>
   fst (Read (snd (Close st h)) h k) =
     Returns (take k (Data f), if Data f = [] then Some EOF else None) \<and>
   position (snd (Read (snd (Close st h)) h k)) h = Some (int (length (take k (Data f)))) \<and>
   read_to_EOF (Suc (length (Data f))) (snd (Close st h)) h k = Some (Data f) \<and>
   (\<forall>a F p. fsystems st a = Some F \<and> Files F p = Some h \<and> \<not> IsDir f \<longrightarrow>
      fst (Open st a p) = Returns (Inr h) \<and>
      fst (Read (snd (Open st a p)) h k) = fst (Read (snd (Close st h)) h k) \<and>
      read_to_EOF (Suc (length (Data f))) (snd (Open st a p)) h k = Some (Data f))"
proof -
  assume f: "files st h = Some f" and k: "0 < k"
  let ?c = "st\<lparr>files := (files st)(h \<mapsto> f\<lparr>buf := None\<rparr>)\<rparr>"
  let ?o = "st\<lparr>files := (files st)(h \<mapsto> f\<lparr>buf := Some (NewReader (Data f))\<rparr>)\<rparr>"
  have c: "Close st h = (Returns None, ?c)"
    using f by (rule Close_file)
  have fc: "files ?c h = Some (f\<lparr>buf := None\<rparr>)" by simp
  have fo: "files ?o h = Some (f\<lparr>buf := Some (NewReader (Data f))\<rparr>)" by simp
  have rc: "fst (Read ?c h k) = Returns (take k (Data f), if Data f = [] then Some EOF else None)"
    using Read_fresh [OF fc] by simp
  have ro: "fst (Read ?o h k) = Returns (take k (Data f), if Data f = [] then Some EOF else None)"
    using Read_fresh [OF fo] by simp
  have pc: "position (snd (Read ?c h k)) h = Some (int (length (take k (Data f))))"
    using position_Read_fresh [OF fc] by simp
  have ac: "read_to_EOF (Suc (length (Data f))) ?c h k = Some (Data f)"
    using read_to_EOF_cursor [OF fc k, of "NewReader (Data f)" "Suc (length (Data f))"]
    by (simp add: NewReader_def)
  have ao: "read_to_EOF (Suc (length (Data f))) ?o h k = Some (Data f)"
    using read_to_EOF_cursor [OF fo k, of "NewReader (Data f)" "Suc (length (Data f))"]
    by (simp add: NewReader_def)
  have "fst (Open st a p) = Returns (Inr h) \<and>
        fst (Read (snd (Open st a p)) h k) = fst (Read ?c h k) \<and>
        read_to_EOF (Suc (length (Data f))) (snd (Open st a p)) h k = Some (Data f)"
    if "fsystems st a = Some F" "Files F p = Some h" "\<not> IsDir f" for a F p
    using Open_file [OF that(1) that(2) f that(3)] rc ro ao by simp
  then show ?thesis
    using c rc pc ac by simp
qed

theorem close_then_read_restarts_witness:
  "fst (Close example_heap 0) = Returns None \<and>
   fst (Read (snd (Close example_heap 0)) 0 1) = Returns (''h'', None) \<and>
   read_to_EOF 3 (snd (Close example_heap 0)) 0 1 = Some ''hi'' \<and>
   fst (Read (snd (Open example_heap 0 ''/b.txt'')) 0 1) = Returns (''h'', None) \<and>
   read_to_EOF 3 (snd (Open example_heap 0 ''/b.txt'')) 0 1 = Some ''hi''"
proof -
  have f: "files example_heap 0 = Some example_file"
    by (simp add: example_heap_def)
  have k: "(0::nat) < 1" by simp
  have o: "fsystems example_heap 0 = Some example_fs \<and> Files example_fs ''/b.txt'' = Some 0 \<and>
           \<not> IsDir example_file"
    by (simp add: example_heap_def example_fs_def example_file_not_dir)
  have d: "Data example_file = ''hi''"
    by (simp add: example_file_def)
  note t = close_then_read_restarts [OF f k]
  from t o have
    "fst (Open example_heap 0 ''/b.txt'') = Returns (Inr 0) \<and>
     fst (Read (snd (Open example_heap 0 ''/b.txt'')) 0 1) =
       fst (Read (snd (Close example_heap 0)) 0 1) \<and>
     read_to_EOF (Suc (length (Data example_file))) (snd (Open example_heap 0 ''/b.txt'')) 0 1 =
       Some (Data example_file)"
    by blast
  with t show ?thesis
    by (simp add: d numeral_3_eq_3 del: read_to_EOF.simps)
qed

text \<open>
  Claim C1. Two \<open>Open\<close> calls for the path of a regular file should give two handles with
  independent cursors. In the code \<open>ret := fi\<close> copies the pointer, not the \<open>File\<close>:
  both calls return the same address, and a \<open>Read\<close> or a \<open>Seek\<close> through the first
  handle moves the position seen through the second, from 0 to 1 and to 2 here.
\<close>

theorem open_twice_shares_cursor:
  "fst (Open example_heap 0 ''/b.txt'') = Returns (Inr 0) \<and>
   fst (Open (snd (Open example_heap 0 ''/b.txt'')) 0 ''/b.txt'') = Returns (Inr 0) \<and>
   position (snd (Open (snd (Open example_heap 0 ''/b.txt'')) 0 ''/b.txt'')) 0 = Some 0 \<and>
   position (snd (Read (snd (Open (snd (Open example_heap 0 ''/b.txt'')) 0 ''/b.txt'')) 0 1)) 0
     = Some 1 \<and>
   position (snd (Seek (snd (Open (snd (Open example_heap 0 ''/b.txt'')) 0 ''/b.txt'')) 0 2 0)) 0
     = Some 2"
  by (simp add: Open_def Read_def Seek_def position_def example_heap_def example_fs_def
      example_file_def IsDir_def FileMode_IsDir_def ModeDir_def NewReader_def Reader_Read_def
      Reader_Seek_def Let_def)

subsection \<open>Directory handles and file handles\<close>

lemma Read_never_invalid:
  "files st h = Some f \<Longrightarrow> \<exists>bs e. fst (Read st h n) = Returns (bs, e) \<and> (e = None \<or> e = Some EOF)"
  by (simp add: Read_file Reader_Read_def Let_def)

lemma Seek_file:
  "files st h = Some f \<Longrightarrow>
   Seek st h off wh =
     (let r = (case buf f of None \<Rightarrow> NewReader (Data f) | Some r \<Rightarrow> r);
          (res, r') = Reader_Seek r off wh
      in (Returns res, st\<lparr>files := (files st)(h \<mapsto> f\<lparr>buf := Some r'\<rparr>)\<rparr>))"
  by (auto simp: Seek_def Let_def split: option.splits prod.splits)

lemma Seek_never_invalid:
  "files st h = Some f \<Longrightarrow>
   \<exists>v e. fst (Seek st h off wh) = Returns (v, e) \<and> e \<noteq> Some ErrInvalid"
  by (simp add: Seek_file Reader_Seek_def Let_def)

lemma Read_cursor:
  "files st h = Some f \<Longrightarrow>
   fst (Read st h n) =
     Returns (let cur = (case buf f of None \<Rightarrow> NewReader (Data f) | Some r \<Rightarrow> r)
              in if int (length (r_s cur)) \<le> r_i cur then ([], Some EOF)
                 else (take n (drop (nat (r_i cur)) (r_s cur)), None))"
  by (simp add: Read_file Reader_Read_def Let_def)

lemma Seek_cursor:
  "files st h = Some f \<Longrightarrow>
   fst (Seek st h off wh) =
     Returns (let cur = (case buf f of None \<Rightarrow> NewReader (Data f) | Some r \<Rightarrow> r);
                  target = (if wh = 0 then off
                            else if wh = 1 then wrap64 (r_i cur + off)
                            else wrap64 (int (length (r_s cur)) + off))
              in if wh \<noteq> 0 \<and> wh \<noteq> 1 \<and> wh \<noteq> 2 then (0, Some SeekInvalidWhence)
                 else if target < 0 then (0, Some SeekNegativePosition)
                 else (target, None))"
  by (simp add: Seek_file Reader_Seek_def Let_def)

lemma position_Seek:
  "files st h = Some f \<Longrightarrow> fst (Seek st h off wh) = Returns (v, None) \<Longrightarrow>
   position (snd (Seek st h off wh)) h = Some v"
  by (auto simp: Seek_file Reader_Seek_def Let_def position_def split: if_splits)

text \<open>
  Claim C6, as stated: \<open>Read\<close> and \<open>Seek\<close> on a handle obtained by opening a directory
  fail with the invalid-operation error. In the code neither method looks at \<open>IsDir\<close>:
  on the directory \<open>/\<close> of the example \<open>Read\<close> reports end-of-file and \<open>Seek\<close> succeeds.
\<close>

theorem directory_handle_reads_counterexample:
  "fst (Open example_heap 0 ''/'') = Returns (Inr 1) \<and>
   fst (Read (snd (Open example_heap 0 ''/'')) 1 1) = Returns ([], Some EOF) \<and>
   fst (Seek (snd (Open example_heap 0 ''/'')) 1 0 0) = Returns (0, None)"
  by (simp add: Open_def Read_def Seek_def example_heap_def example_fs_def
      example_dir_def IsDir_def FileMode_IsDir_def ModeDir_def NewReader_def Reader_Read_def
      Reader_Seek_def Let_def)

text \<open>
  Claim C6, amended. For every handle obtained by opening a directory path, \<open>Open\<close>
  returns the pointer stored in \<open>Files\<close> and leaves the store as it is, so \<open>Stat\<close> and
  the metadata accessors answer from the directory's own entry; \<open>Read\<close> and \<open>Seek\<close>
  do not fail with the invalid-operation error: they act on a lazily created cursor over
  the directory's data, exactly as on a regular file. \<open>Read\<close> returns the next bytes, or
  end-of-file when the cursor is at the end (at once when the directory has no data).
  \<open>Seek\<close> fails only for a \<open>whence\<close> other than 0, 1, 2 and for a negative target
  position; otherwise it returns the target position (the offset itself, the current
  position plus the offset, or the length plus the offset) and moves the cursor there.
  For every handle obtained by opening a regular file path, \<open>Readdir\<close> fails with the
  invalid-operation error.
\<close>

theorem directory_and_file_handles:
  assumes "fsystems st a = Some F" and "Files F p = Some h" and "files st h = Some f"
  shows "(IsDir f \<longrightarrow>
            Open st a p = (Returns (Inr h), st) \<and>
            (\<forall>n. \<exists>bs e. fst (Read st h n) = Returns (bs, e) \<and> (e = None \<or> e = Some EOF)) \<and>
            (\<forall>off wh. \<exists>v e. fst (Seek st h off wh) = Returns (v, e) \<and> e \<noteq> Some ErrInvalid) \<and>
            (buf f = None \<and> Data f = [] \<longrightarrow>
               (\<forall>n. fst (Read st h n) = Returns ([], Some EOF)) \<and>
               (\<forall>off. 0 \<le> off \<longrightarrow> fst (Seek st h off 0) = Returns (off, None))) \<and>
            Stat st h = (Returns (h, None), st) \<and>
            (\<forall>n. fst (Read st h n) =
               Returns (let cur = (case buf f of None \<Rightarrow> NewReader (Data f) | Some r \<Rightarrow> r)
                        in if int (length (r_s cur)) \<le> r_i cur then ([], Some EOF)
                           else (take n (drop (nat (r_i cur)) (r_s cur)), None))) \<and>
            (\<forall>off wh. fst (Seek st h off wh) =
               Returns (let cur = (case buf f of None \<Rightarrow> NewReader (Data f) | Some r \<Rightarrow> r);
                            target = (if wh = 0 then off
                                      else if wh = 1 then wrap64 (r_i cur + off)
                                      else wrap64 (int (length (r_s cur)) + off))
                        in if wh \<noteq> 0 \<and> wh \<noteq> 1 \<and> wh \<noteq> 2 then (0, Some SeekInvalidWhence)
                           else if target < 0 then (0, Some SeekNegativePosition)
                           else (target, None))) \<and>
            (\<forall>off wh v. fst (Seek st h off wh) = Returns (v, None) \<longrightarrow>
               position (snd (Seek st h off wh)) h = Some v)) \<and>
         (\<not> IsDir f \<longrightarrow>
            fst (Open st a p) = Returns (Inr h) \<and>
            (\<forall>i c. fst (Readdir (snd (Open st a p)) h i c) = Returns (Inl ErrInvalid)))"
proof (intro conjI impI)
  assume d: "IsDir f"
  show "Open st a p = (Returns (Inr h), st)"
    using assms d by (rule Open_dir)
  show "\<forall>n. \<exists>bs e. fst (Read st h n) = Returns (bs, e) \<and> (e = None \<or> e = Some EOF)"
    using Read_never_invalid [OF assms(3)] by blast
  show "\<forall>off wh. \<exists>v e. fst (Seek st h off wh) = Returns (v, e) \<and> e \<noteq> Some ErrInvalid"
    using Seek_never_invalid [OF assms(3)] by blast
  show "Stat st h = (Returns (h, None), st)"
    by (simp add: Stat_def)
  show "\<forall>n. fst (Read st h n) =
               Returns (let cur = (case buf f of None \<Rightarrow> NewReader (Data f) | Some r \<Rightarrow> r)
                        in if int (length (r_s cur)) \<le> r_i cur then ([], Some EOF)
                           else (take n (drop (nat (r_i cur)) (r_s cur)), None))"
    using Read_cursor [OF assms(3)] by blast
  show "\<forall>off wh. fst (Seek st h off wh) =
               Returns (let cur = (case buf f of None \<Rightarrow> NewReader (Data f) | Some r \<Rightarrow> r);
                            target = (if wh = 0 then off
                                      else if wh = 1 then wrap64 (r_i cur + off)
                                      else wrap64 (int (length (r_s cur)) + off))
                        in if wh \<noteq> 0 \<and> wh \<noteq> 1 \<and> wh \<noteq> 2 then (0, Some SeekInvalidWhence)
                           else if target < 0 then (0, Some SeekNegativePosition)
                           else (target, None))"
    using Seek_cursor [OF assms(3)] by blast
  show "\<forall>off wh v. fst (Seek st h off wh) = Returns (v, None) \<longrightarrow>
               position (snd (Seek st h off wh)) h = Some v"
    using position_Seek [OF assms(3)] by blast
next
  assume "IsDir f" and e: "buf f = None \<and> Data f = []"
  show "\<forall>n. fst (Read st h n) = Returns ([], Some EOF)"
    using e by (simp add: Read_file [OF assms(3)] Reader_Read_def NewReader_def Let_def)
  show "\<forall>off. 0 \<le> off \<longrightarrow> fst (Seek st h off 0) = Returns (off, None)"
    using e by (simp add: Seek_file [OF assms(3)] Reader_Seek_def NewReader_def Let_def)
next
  assume n: "\<not> IsDir f"
  note o = Open_file [OF assms n]
  show "fst (Open st a p) = Returns (Inr h)"
    by (simp add: o)
  show "\<forall>i c. fst (Readdir (snd (Open st a p)) h i c) = Returns (Inl ErrInvalid)"
    using n by (simp add: o Readdir_def IsDir_def)
qed

theorem directory_and_file_handles_witness:
  "Open example_heap 0 ''/'' = (Returns (Inr 1), example_heap) \<and>
   fst (Read example_heap 1 4) = Returns ([], Some EOF) \<and>
   fst (Seek example_heap 1 3 0) = Returns (3, None) \<and>
   fst (Seek example_heap 1 3 1) = Returns (3, None) \<and>
   fst (Seek example_heap 1 3 2) = Returns (3, None) \<and>
   position (snd (Seek example_heap 1 3 2)) 1 = Some 3 \<and>
   fst (Seek example_heap 1 (- 1) 2) = Returns (0, Some SeekNegativePosition) \<and>
   fst (Seek example_heap 1 0 7) = Returns (0, Some SeekInvalidWhence) \<and>
   Stat example_heap 1 = (Returns (1, None), example_heap) \<and>
   fst (Open example_heap 0 ''/b.txt'') = Returns (Inr 0) \<and>
   fst (Readdir (snd (Open example_heap 0 ''/b.txt'')) 0 0 (- 1)) = Returns (Inl ErrInvalid)"
proof -
  have a: "fsystems example_heap 0 = Some example_fs"
    by (simp add: example_heap_def)
  have d: "Files example_fs ''/'' = Some 1" "files example_heap 1 = Some example_dir"
    by (simp_all add: example_fs_def example_heap_def)
  have f: "Files example_fs ''/b.txt'' = Some 0" "files example_heap 0 = Some example_file"
    by (simp_all add: example_fs_def example_heap_def)
  have e: "buf example_dir = None \<and> Data example_dir = []"
    by (simp add: example_dir_def)
  note t = directory_and_file_handles [OF a d]
  from t example_dir_is_dir e
  have 1: "Open example_heap 0 ''/'' = (Returns (Inr 1), example_heap) \<and>
        fst (Read example_heap 1 4) = Returns ([], Some EOF) \<and>
        fst (Seek example_heap 1 3 0) = Returns (3, None) \<and>
        Stat example_heap 1 = (Returns (1, None), example_heap)"
    by simp
  from t example_dir_is_dir
  have s: "fst (Seek example_heap 1 off wh) =
               Returns (let cur = (case buf example_dir of None \<Rightarrow> NewReader (Data example_dir) | Some r \<Rightarrow> r);
                            target = (if wh = 0 then off
                                      else if wh = 1 then wrap64 (r_i cur + off)
                                      else wrap64 (int (length (r_s cur)) + off))
                        in if wh \<noteq> 0 \<and> wh \<noteq> 1 \<and> wh \<noteq> 2 then (0, Some SeekInvalidWhence)
                           else if target < 0 then (0, Some SeekNegativePosition)
                           else (target, None))" for off wh
    by blast
  have 2: "fst (Seek example_heap 1 3 1) = Returns (3, None)"
    "fst (Seek example_heap 1 3 2) = Returns (3, None)"
    "fst (Seek example_heap 1 (- 1) 2) = Returns (0, Some SeekNegativePosition)"
    "fst (Seek example_heap 1 0 7) = Returns (0, Some SeekInvalidWhence)"
    unfolding s by (simp_all add: e NewReader_def wrap64_def)
  from t example_dir_is_dir 2(2)
  have 3: "position (snd (Seek example_heap 1 3 2)) 1 = Some 3"
    by blast
  from directory_and_file_handles [OF a f] example_file_not_dir
  have 4: "fst (Open example_heap 0 ''/b.txt'') = Returns (Inr 0) \<and>
        fst (Readdir (snd (Open example_heap 0 ''/b.txt'')) 0 0 (- 1)) = Returns (Inl ErrInvalid)"
    by simp
  show ?thesis
    using 1 2 3 4 by simp
qed

subsection \<open>Listing the children of a directory\<close>

lemma nth_upto_take_drop:
  assumes "0 \<le> i" and "j \<le> int (length d)"
  shows "map (\<lambda>k. d ! nat k) [i .. j - 1] = take (nat (j - i)) (drop (nat i) d)"
proof (rule nth_equalityI)
  show len: "length (map (\<lambda>k. d ! nat k) [i .. j - 1]) = length (take (nat (j - i)) (drop (nat i) d))"
    using assms by (simp add: min_def) linarith
  fix n assume "n < length (map (\<lambda>k. d ! nat k) [i .. j - 1])"
  then have n: "i + int n \<le> j - 1"
    by simp
  then have "[i .. j - 1] ! n = i + int n"
    by (rule nth_upto)
  moreover have "nat (i + int n) = nat i + n"
    using assms(1) by (simp add: nat_add_distrib)
  ultimately show "map (\<lambda>k. d ! nat k) [i .. j - 1] ! n = take (nat (j - i)) (drop (nat i) d) ! n"
    using n assms by (simp add: nth_append)
qed

lemma readDir_in_range:
  assumes "Dirs F p = Some d" and "0 \<le> index" and "index \<le> int (length d)" and "0 \<le> cnt"
    and "index + cnt < 2 ^ 63" and "int (length d) \<le> max_slice_cap"
  shows "readDir F p index cnt =
           Returns (Inr (map (\<lambda>n. Files F (Join p n)) (take (nat cnt) (drop (nat index) d))))"
proof -
  define maxl where "maxl = (if index + cnt > int (length d) then int (length d) else index + cnt)"
  have w: "wrap64 (index + cnt) = index + cnt"
    using assms by (simp add: wrap64_def)
  have m: "index \<le> maxl" "maxl \<le> int (length d)" "maxl - index < 2 ^ 63"
    using assms by (auto simp: maxl_def)
  have w2: "wrap64 (maxl - index) = maxl - index"
    using m by (simp add: wrap64_def)
  have c: "maxl - index \<le> max_slice_cap"
    using m assms(2,6) by linarith
  have "map (\<lambda>i. Files F (Join p (d ! nat i))) [index .. maxl - 1] =
        map (\<lambda>n. Files F (Join p n)) (map (\<lambda>k. d ! nat k) [index .. maxl - 1])"
    by simp
  also have "\<dots> = map (\<lambda>n. Files F (Join p n)) (take (nat (maxl - index)) (drop (nat index) d))"
    using nth_upto_take_drop [OF assms(2) m(2)] by simp
  also have "take (nat (maxl - index)) (drop (nat index) d) = take (nat cnt) (drop (nat index) d)"
    using assms by (auto simp: maxl_def)
  finally show ?thesis
    using assms(1,2) m w w2 c by (simp add: readDir_def Let_def maxl_def [symmetric])
qed

lemma readDir_large_capacity_panics:
  "readDir example_fs ''/'' 1 9223372036854775807 = Panics ''makeslice: cap out of range''"
  "readDir example_fs ''/'' (- 4611686018427387904) 4611686018427387905
     = Panics ''makeslice: cap out of range''"
  by (simp_all add: readDir_def example_fs_def wrap64_def max_slice_cap_def Let_def)

text \<open>
  Claim C3. Listing \<open>k\<close> children from index \<open>i\<close> should never fail and should be empty
  for \<open>i \<ge> n\<close>. The code clamps \<open>maxl\<close> but not \<open>index\<close>: for the directory \<open>/\<close> of
  the example (\<open>n = 1\<close>), \<open>i = 2\<close> makes the capacity \<open>maxl - index\<close> negative and
  \<open>make\<close> panics, while \<open>i = n = 1\<close> returns the empty sequence and \<open>i = 0\<close> the one child.
\<close>

theorem readDir_start_past_end_panics:
  "readDir example_fs ''/'' 2 0 = Panics ''makeslice: cap out of range'' \<and>
   readDir example_fs ''/'' 1 5 = Returns (Inr []) \<and>
   readDir example_fs ''/'' 0 5 = Returns (Inr [Some 0])"
  by (simp add: readDir_def example_fs_def wrap64_def max_slice_cap_def Let_def Join_def Clean_def
      clean_step_def upto.simps)

section \<open>Properties of the generator\<close>

subsection \<open>Collecting a tree\<close>

lemma example_paths:
  "Clean ''a'' = ''a''" "Dir ''a'' = ''.''" "Join ''.'' ''a'' = ''a''"
  "Join ''a'' ''b.txt'' = ''a/b.txt''" "Join ''a'' ''c'' = ''a/c''"
  by code_simp+

lemma example_kinds:
  "FileInfo_IsDir info_a" "\<not> FileInfo_IsDir info_b" "FileInfo_IsDir info_c"
  by code_simp+

lemma example_names:
  "fi_Name info_a = ''a''" "fi_Name info_b = ''b.txt''" "fi_Name info_c = ''c''"
  by (simp_all add: info_a_def info_b_def info_c_def)

lemma Add_example: "Add example_Stat ''a'' example_generator = (None, collected_generator)"
  by (simp add: Add_def example_Stat_def tree_a_def example_paths example_kinds example_names
      example_generator_def collected_generator_def map_of_nil_def Let_def fun_upd_twist)

text \<open>
  Claim C2. Every registered path below a root should appear once in the listing of its
  parent, and for the tree \<open>a\<close>, \<open>a/b.txt\<close>, \<open>a/c\<close> with prefix \<open>a\<close> the emitted
  listing of \<open>/\<close> should be \<open>b.txt\<close>, \<open>c\<close>. \<open>addPath\<close> appends a name to the listing of the
  parent only in its branch for non-directories: collecting the tree leaves \<open>b.txt\<close>
  alone in the listing of \<open>a\<close>, and the emitted listing of \<open>/\<close> is \<open>b.txt\<close> alone,
  whichever way the directory mapping is iterated. The emitted keys are as the claim says.
\<close>

theorem subdirectory_missing_from_listing:
  "Add example_Stat ''a'' example_generator = (None, collected_generator) \<and>
   fsDirsMap collected_generator = Some [''a'' \<mapsto> [''b.txt''], ''a/c'' \<mapsto> []] \<and>
   dirmap_of [''a'', ''a/c''] (make_maps collected_generator) ''/'' = Some [''b.txt''] \<and>
   dirmap_of [''a/c'', ''a''] (make_maps collected_generator) ''/'' = Some [''b.txt''] \<and>
   dirmap_of [''a'', ''a/c''] (make_maps collected_generator) ''/c'' = Some [] \<and>
   map e_key (file_entries [''a'', ''a/b.txt'', ''a/c''] Map.empty (make_maps collected_generator))
     = [''/'', ''/b.txt'', ''/c'']"
proof -
  have "dirmap_of [''a'', ''a/c''] (make_maps collected_generator) ''/'' = Some [''b.txt'']"
    by code_simp
  moreover have "dirmap_of [''a/c'', ''a''] (make_maps collected_generator) ''/'' = Some [''b.txt'']"
    by code_simp
  moreover have "dirmap_of [''a'', ''a/c''] (make_maps collected_generator) ''/c'' = Some []"
    by code_simp
  moreover have
    "map e_key (file_entries [''a'', ''a/b.txt'', ''a/c''] Map.empty (make_maps collected_generator))
       = [''/'', ''/b.txt'', ''/c'']"
    by code_simp
  moreover have "fsDirsMap collected_generator = Some [''a'' \<mapsto> [''b.txt''], ''a/c'' \<mapsto> []]"
    by (simp add: collected_generator_def)
  ultimately show ?thesis
    using Add_example by simp
qed

lemma Add_stat_error:
  "os_Stat (Clean p) = Inl err \<Longrightarrow> Add os_Stat p x = (Some err, x)"
  by (simp add: Add_def)

lemma addPath_readdir_error:
  "FileInfo_IsDir info \<Longrightarrow> fst (addPath parent (Node info None (Some err) fi) x) = Some err"
  by (simp add: Let_def)

lemma addPath_open_error:
  "FileInfo_IsDir info \<Longrightarrow> fst (addPath parent (Node info (Some err) r fi) x) = Some ErrInvalid"
  by (simp add: Let_def)

lemma addPaths_first_error:
  "addPath p f x = (Some err, x') \<Longrightarrow> addPaths p (f # fi) x = (Some err, x')"
  by simp

text \<open>
  Claim C8. A path that does not exist makes \<open>Add\<close> return the error of \<open>os.Stat\<close>, and
  an error met during the walk ends it (the four lemmas above). But the error returned for
  a subdirectory that cannot be opened is not that error: when \<open>os.Open\<close> fails on \<open>a/c\<close>
  with \<open>ErrPermission\<close>, \<open>Add\<close> returns \<open>ErrInvalid\<close>, the answer of \<open>Readdir\<close> on the nil
  file.
\<close>

theorem open_error_replaced:
  "fst (Add locked_Stat ''a'' example_generator) = Some ErrInvalid \<and>
   fst (Add locked_Stat ''a'' example_generator) \<noteq> Some ErrPermission \<and>
   fst (Add locked_Stat ''missing'' example_generator) = Some ErrNotExist"
  by code_simp

subsection \<open>Serializing\<close>

lemma emitted_time_doubles_seconds:
  assumes "0 \<le> t_nsec t" and "t_nsec t < 1000000000" and "0 \<le> t_sec t"
    and "2 * t_sec t < 9223372036"
  shows "time_Unix (Time_Unix t) (Time_UnixNano t) = \<lparr>t_sec = 2 * t_sec t, t_nsec = t_nsec t\<rparr>"
proof -
  have n: "Time_UnixNano t = t_sec t * 1000000000 + t_nsec t"
    using assms by (simp add: Time_UnixNano_def wrap64_def)
  have d: "(t_sec t * 1000000000 + t_nsec t) div 1000000000 = t_sec t"
    using assms by simp
  have m: "(t_sec t * 1000000000 + t_nsec t) mod 1000000000 = t_nsec t"
    using assms by simp
  have w: "wrap64 (t_sec t + t_sec t) = 2 * t_sec t"
    using assms by (simp add: wrap64_def)
  show ?thesis
    unfolding time_Unix_def Time_Unix_def n d m w by simp
qed

text \<open>
  Claim C4. The modification time should be emitted as seconds and nanosecond offset, and
  running the emitted initialization should give the original time back. The second
  integer emitted is \<open>mt.UnixNano()\<close>, the whole time in nanoseconds, not the offset: for
  \<open>a/b.txt\<close>, modified one second after the epoch, the literal is
  \<open>time.Unix(1, 1000000000)\<close>, which is two seconds after the epoch.
\<close>

theorem emitted_mtime_not_restored:
  "fi_ModTime info_b = \<lparr>t_sec = 1, t_nsec = 0\<rparr> \<and>
   e_MTime_sec (file_entry ''a'' Map.empty ''a/b.txt'' info_b) = 1 \<and>
   e_MTime_nsec (file_entry ''a'' Map.empty ''a/b.txt'' info_b) = 1000000000 \<and>
   MTime (run_entry Map.empty (file_entry ''a'' Map.empty ''a/b.txt'' info_b))
     = \<lparr>t_sec = 2, t_nsec = 0\<rparr>"
  by (simp add: info_b_def file_entry_def run_entry_def Time_Unix_def Time_UnixNano_def
      time_Unix_def wrap64_def Let_def)

lemma range_of_empty [simp]: "range_of Map.empty ks = []"
  by (induction ks) (simp_all add: range_of_def List.map_filter_simps)

lemma map_of_nil_simps [simp]:
  "map_of_nil None = Map.empty" "map_of_nil (Some m) = m"
  by (simp_all add: map_of_nil_def)

lemma map_of_nil_make_maps [simp]:
  "map_of_nil (fsDirsMap (make_maps x)) = map_of_nil (fsDirsMap x)"
  "map_of_nil (fsFilesMap (make_maps x)) = map_of_nil (fsFilesMap x)"
  by (simp_all add: make_maps_def map_of_nil_def Let_def)

lemma make_maps_fields [simp]:
  "StripPrefix (make_maps x) = StripPrefix x" "Compressed (make_maps x) = Compressed x"
  "PackageName (make_maps x) = PackageName x" "VariableName (make_maps x) = VariableName x"
  by (simp_all add: make_maps_def Let_def)

lemma raw_text_without_paths:
  assumes "fsDirsMap x = None" and "fsFilesMap x = None"
  shows "raw_text E S x =
           Inr (''package '' @ (if PackageName x = [] then ''main'' else PackageName x) @ nl @ nl
                @ ''import ('' @ nl
                @ tab @ dq @ ''github.com/jessevdk/go-assets'' @ dq @ nl
                @ tab @ dq @ ''time'' @ dq @ nl
                @ '')'' @ nl
                @ nl
                @ ''var '' @ (if VariableName x = [] then ''Assets'' else VariableName x)
                @ '' assets.FileSystem'' @ nl @ nl
                @ ''func init() {'' @ nl
                @ tab @ (if VariableName x = [] then ''Assets'' else VariableName x)
                @ '' = assets.FileSystem{'' @ nl
                @ tab @ tab @ ''Dirs: map[string][]string{},'' @ nl
                @ tab @ tab @ ''Files: map[string]*assets.File{'' @ nl
                @ tab @ tab @ ''},'' @ nl
                @ tab @ tab @ ''Compressed: '' @ (if Compressed x then ''true'' else ''false'') @ '','' @ nl
                @ tab @ ''}'' @ nl
                @ ''}'' @ nl)"
proof -
  let ?p = "if PackageName x = [] then ''main'' else PackageName x"
  let ?v = "if VariableName x = [] then ''Assets'' else VariableName x"
  have b: "blob_pass E (blob_order S) ?v x = Inr (Map.empty, [])"
    using assms(2) by (simp add: blob_pass_def)
  have d: "dirmap_of (dirs_order S) (make_maps x) = Map.empty"
    using assms(1) by (simp add: dirmap_of_def)
  have f: "file_entries (files_order S) Map.empty (make_maps x) = []"
    using assms(2) by (simp add: file_entries_def)
  have s: "show_dirmap E Map.empty (print_order S) = ''map[string][]string{}''"
    by (simp add: show_dirmap_def)
  have "raw_text E S x = Inr (concat (header ?p @ [] @
          [''var '' @ ?v @ '' assets.FileSystem'' @ nl @ nl, ''func init() {'' @ nl,
           tab @ ?v @ '' = assets.FileSystem{'' @ nl] @
          [tab @ tab @ ''Dirs: '' @ ''map[string][]string{}'' @ '','' @ nl,
           tab @ tab @ ''Files: map[string]*assets.File{'' @ nl] @ [] @
          [tab @ tab @ ''},'' @ nl,
           tab @ tab @ ''Compressed: '' @ show_bool (Compressed x) @ '','' @ nl,
           tab @ ''}'' @ nl, ''}'' @ nl]))"
    unfolding raw_text_def raw_chunks_def Let_def
    using b d f s by simp
  then show ?thesis
    by (simp add: header_def show_bool_def)
qed

lemma make_maps_nil:
  "fsDirsMap x = None \<Longrightarrow> fsFilesMap x = None \<Longrightarrow>
   make_maps x = x\<lparr>fsDirsMap := Some Map.empty, fsFilesMap := Some Map.empty\<rparr>"
  by (simp add: make_maps_def)

lemma Write_result:
  "raw_text E S x = Inr src \<Longrightarrow> Write E S x = (format_Source E src, make_maps x)"
  by (cases "format_Source E src") (simp_all add: Write_def)

text \<open>
  Claim C10, as stated: serializing a generator to which no path was added succeeds.
  \<open>Write\<close> returns the error of \<open>format.Source\<close> when that rejects the text, and the
  text begins with the package name as it was given: with the package name \<open>1 2\<close> and
  both maps nil, \<open>Write\<close> fails.
\<close>

theorem write_rejected_counterexample:
  "fsDirsMap bad_package_generator = None \<and> fsFilesMap bad_package_generator = None \<and>
   fst (Write parsing_externals schedule_1 bad_package_generator) = Inl (IOError ''expected IDENT'')"
proof -
  have n: "fsDirsMap bad_package_generator = None" "fsFilesMap bad_package_generator = None"
    by (simp_all add: bad_package_generator_def)
  note r = raw_text_without_paths [OF n, of parsing_externals schedule_1]
  have p: "PackageName bad_package_generator = ''1 2''"
    by (simp add: bad_package_generator_def)
  have "\<not> parses_package_clause (''package '' @ ''1 2'' @ nl @ rest)" for rest
    by (simp add: parses_package_clause_def go_identifier_def nl_def)
  then have "format_Source parsing_externals (''package '' @ ''1 2'' @ nl @ rest)
               = Inl (IOError ''expected IDENT'')" for rest
    by (simp add: parsing_externals_def)
  then show ?thesis
    using n Write_result [OF r] by (simp add: p)
qed

text \<open>
  Claim C10, amended. Serializing a generator whose two maps are still nil reads no file,
  touches no missing state and does not fail before the canonicalizer is called: the text
  handed to \<open>format.Source\<close> is exactly the header, the variable declaration and an
  \<open>init\<close> with an empty directory-listing mapping, an empty entries mapping and
  \<open>Compressed\<close> equal to the option. \<open>Write\<close> returns what \<open>format.Source\<close> returns for
  that text, the canonical text when it accepts it and its error when it does not, and
  leaves both maps empty.
\<close>

theorem write_without_paths:
  assumes "fsDirsMap x = None" and "fsFilesMap x = None"
  shows "(let src =
            ''package '' @ (if PackageName x = [] then ''main'' else PackageName x) @ nl @ nl
            @ ''import ('' @ nl
            @ tab @ dq @ ''github.com/jessevdk/go-assets'' @ dq @ nl
            @ tab @ dq @ ''time'' @ dq @ nl
            @ '')'' @ nl
            @ nl
            @ ''var '' @ (if VariableName x = [] then ''Assets'' else VariableName x)
            @ '' assets.FileSystem'' @ nl @ nl
            @ ''func init() {'' @ nl
            @ tab @ (if VariableName x = [] then ''Assets'' else VariableName x)
            @ '' = assets.FileSystem{'' @ nl
            @ tab @ tab @ ''Dirs: map[string][]string{},'' @ nl
            @ tab @ tab @ ''Files: map[string]*assets.File{'' @ nl
            @ tab @ tab @ ''},'' @ nl
            @ tab @ tab @ ''Compressed: '' @ (if Compressed x then ''true'' else ''false'') @ '','' @ nl
            @ tab @ ''}'' @ nl
            @ ''}'' @ nl
          in raw_text E S x = Inr src \<and>
             Write E S x =
               (format_Source E src, x\<lparr>fsDirsMap := Some Map.empty, fsFilesMap := Some Map.empty\<rparr>))"
  unfolding Let_def
  using raw_text_without_paths [OF assms, of E S]
    Write_result [OF raw_text_without_paths [OF assms, of E S]] make_maps_nil [OF assms]
  by simp

theorem write_without_paths_witness:
  "Write example_externals schedule_1 example_generator =
     (Inr (''package main'' @ nl @ nl
           @ ''import ('' @ nl
           @ tab @ dq @ ''github.com/jessevdk/go-assets'' @ dq @ nl
           @ tab @ dq @ ''time'' @ dq @ nl
           @ '')'' @ nl
           @ nl
           @ ''var Assets assets.FileSystem'' @ nl @ nl
           @ ''func init() {'' @ nl
           @ tab @ ''Assets = assets.FileSystem{'' @ nl
           @ tab @ tab @ ''Dirs: map[string][]string{},'' @ nl
           @ tab @ tab @ ''Files: map[string]*assets.File{'' @ nl
           @ tab @ tab @ ''},'' @ nl
           @ tab @ tab @ ''Compressed: false,'' @ nl
           @ tab @ ''}'' @ nl
           @ ''}'' @ nl),
      example_generator\<lparr>fsDirsMap := Some Map.empty, fsFilesMap := Some Map.empty\<rparr>)"
proof -
  have h: "fsDirsMap example_generator = None" "fsFilesMap example_generator = None"
    by (simp_all add: example_generator_def)
  have c: "Compressed example_generator = False" "PackageName example_generator = []"
    "VariableName example_generator = []"
    by (simp_all add: example_generator_def)
  have f: "format_Source example_externals = Inr"
    by (simp add: example_externals_def)
  show ?thesis
    using write_without_paths [OF h, of example_externals schedule_1]
    by (simp add: c f Let_def)
qed

lemma range_of_Nil [simp]: "range_of m [] = []"
  by (simp add: range_of_def)

lemma range_of_Cons:
  "range_of m (k # ks) = (case m k of None \<Rightarrow> range_of m ks | Some v \<Rightarrow> (k, v) # range_of m ks)"
  by (simp add: range_of_def split: option.splits)

lemma set_range_of: "set (range_of m ks) = {(k, v). k \<in> set ks \<and> m k = Some v}"
  by (induction ks) (auto simp: range_of_Cons split: option.splits)

lemma fst_set_range_of: "fst ` set (range_of m ks) = set ks \<inter> dom m"
  by (auto simp: set_range_of image_iff)

lemma map_fst_range_of: "set ks \<subseteq> dom m \<Longrightarrow> map fst (range_of m ks) = ks"
  by (induction ks) (auto simp: range_of_Cons)

lemma post_strip_fun:
  "(\<lambda>vi. if TrimPrefix vi prefix = [] then ''/'' else TrimPrefix vi prefix) = post_strip prefix"
  by (simp add: post_strip_def fun_eq_iff)

lemma build_dirmap_Cons:
  "build_dirmap prefix ((k, v) # kvs) dirmap =
     build_dirmap prefix kvs (dirmap(post_strip prefix k \<mapsto> map (post_strip prefix) v))"
  by (simp add: Let_def post_strip_fun post_strip_def [symmetric])

lemma build_dirmap_dom:
  "dom (build_dirmap prefix kvs dirmap) = dom dirmap \<union> post_strip prefix ` fst ` set kvs"
proof (induction kvs arbitrary: dirmap)
  case Nil
  then show ?case by simp
next
  case (Cons kv kvs)
  obtain k v where kv: "kv = (k, v)" by (cases kv)
  show ?case
    unfolding kv build_dirmap_Cons Cons.IH by auto
qed

lemma dom_dirmap_of:
  "enumerates (map_of_nil (fsDirsMap x)) dks \<Longrightarrow>
   dom (dirmap_of dks x) = post_strip (StripPrefix x) ` dom (map_of_nil (fsDirsMap x))"
  by (simp add: dirmap_of_def build_dirmap_dom fst_set_range_of enumerates_def)

lemma e_key_file_entry: "e_key (file_entry prefix vnames k v) = post_strip prefix k"
  by (simp add: file_entry_def post_strip_def Let_def)

lemma e_Path_file_entry: "e_Path (file_entry prefix vnames k v) = post_strip prefix k"
  by (simp add: file_entry_def post_strip_def Let_def)

lemma keys_file_entries:
  assumes "enumerates (map_of_nil (fsFilesMap x)) fks"
  shows "map e_key (file_entries fks vnames x) = map (post_strip (StripPrefix x)) fks"
    and "map e_Path (file_entries fks vnames x) = map (post_strip (StripPrefix x)) fks"
proof -
  have s: "set fks \<subseteq> dom (map_of_nil (fsFilesMap x))"
    using assms by (simp add: enumerates_def)
  have "map e_key (file_entries fks vnames x) =
        map (post_strip (StripPrefix x)) (map fst (range_of (map_of_nil (fsFilesMap x)) fks))"
    by (simp add: file_entries_def e_key_file_entry case_prod_beta comp_def)
  then show "map e_key (file_entries fks vnames x) = map (post_strip (StripPrefix x)) fks"
    by (simp add: map_fst_range_of [OF s])
  have "map e_Path (file_entries fks vnames x) =
        map (post_strip (StripPrefix x)) (map fst (range_of (map_of_nil (fsFilesMap x)) fks))"
    by (simp add: file_entries_def e_Path_file_entry case_prod_beta comp_def)
  then show "map e_Path (file_entries fks vnames x) = map (post_strip (StripPrefix x)) fks"
    by (simp add: map_fst_range_of [OF s])
qed

lemma post_strip_prefix_itself: "post_strip prefix prefix = ''/''"
  by (simp add: post_strip_def TrimPrefix_def HasPrefix_def)

subsection \<open>The order of the output\<close>

lemma range_of_total:
  "set ks \<subseteq> dom m \<Longrightarrow> range_of m ks = map (\<lambda>k. (k, the (m k))) ks"
  by (induction ks) (auto simp: range_of_Cons)

lemma mset_range_of:
  assumes "enumerates m ks" and "enumerates m ks'"
  shows "mset (range_of m ks) = mset (range_of m ks')"
proof -
  have "mset ks = mset ks'"
    using assms by (simp add: enumerates_def set_eq_iff_mset_eq_distinct [symmetric])
  then have "mset (map (\<lambda>k. (k, the (m k))) ks) = mset (map (\<lambda>k. (k, the (m k))) ks')"
    by simp
  then show ?thesis
    using assms by (simp add: range_of_total enumerates_def)
qed

lemma set_range_of_enumerates:
  "enumerates m ks \<Longrightarrow> set (range_of m ks) = {(k, v). m k = Some v}"
  by (auto simp: set_range_of enumerates_def)

lemma write_blobs_error_iff:
  "(\<exists>err. write_blobs E c v kvs vn w = Inl err) \<longleftrightarrow>
   (\<exists>(k, i) \<in> set kvs. \<not> FileInfo_IsDir i \<and> file_content E k = None)"
proof (induction kvs arbitrary: vn w)
  case Nil
  then show ?case by simp
next
  case (Cons kv kvs)
  obtain k i where kv: "kv = (k, i)" by (cases kv)
  show ?case
    unfolding kv using Cons.IH
    by (auto simp: file_content_def Let_def split: sum.splits)
qed

lemma write_blobs_result:
  "write_blobs E c v kvs vn w = Inr (vn', w') \<Longrightarrow>
   vn' = (\<lambda>q. if \<exists>i. (q, i) \<in> set kvs \<and> \<not> FileInfo_IsDir i
                then Some (''__'' @ v @ sha1_hex E q) else vn q) \<and>
   w' = w @ map (\<lambda>(k, i). blob_line E c v k) (filter (\<lambda>(k, i). \<not> FileInfo_IsDir i) kvs)"
proof (induction kvs arbitrary: vn w)
  case Nil
  then show ?case by simp
next
  case (Cons kv kvs)
  obtain k i where kv: "kv = (k, i)" by (cases kv)
  show ?case
  proof (cases "FileInfo_IsDir i")
    case True
    with Cons.prems have "write_blobs E c v kvs vn w = Inr (vn', w')"
      by (simp add: kv)
    from Cons.IH [OF this] True show ?thesis
      by (auto simp: kv fun_eq_iff)
  next
    case False
    with Cons.prems obtain content where o: "os_Open E k = Inr (Inr content)"
      by (auto simp: kv split: sum.splits)
    then have l: "blob_line E c v k =
        ''var '' @ (''__'' @ v @ sha1_hex E k) @ '' = []byte(''
          @ go_quote E (if c then gzip_compress E content else content) @ '')'' @ nl"
      by (simp add: blob_line_def file_content_def)
    from Cons.prems False o
    have "write_blobs E c v kvs (vn(k \<mapsto> ''__'' @ v @ sha1_hex E k)) (w @ [blob_line E c v k])
            = Inr (vn', w')"
      by (simp add: kv l Let_def)
    from Cons.IH [OF this] False show ?thesis
      by (auto simp: kv fun_eq_iff)
  qed
qed


lemma blob_pass_error_iff:
  assumes "enumerates (map_of_nil (fsFilesMap x)) ks"
  shows "(\<exists>err. blob_pass E ks v x = Inl err) \<longleftrightarrow>
         (\<exists>k i. map_of_nil (fsFilesMap x) k = Some i \<and> \<not> FileInfo_IsDir i \<and> file_content E k = None)"
proof (cases "fsFilesMap x")
  case None
  then show ?thesis by (simp add: blob_pass_def)
next
  case (Some m)
  have "(\<exists>err. blob_pass E ks v x = Inl err) \<longleftrightarrow>
        (\<exists>err. write_blobs E (Compressed x) v (range_of m ks) Map.empty [] = Inl err)"
    by (auto simp: blob_pass_def Some split: sum.splits)
  also have "\<dots> \<longleftrightarrow> (\<exists>(k, i) \<in> set (range_of m ks). \<not> FileInfo_IsDir i \<and> file_content E k = None)"
    by (rule write_blobs_error_iff)
  also have "\<dots> \<longleftrightarrow> (\<exists>k i. m k = Some i \<and> \<not> FileInfo_IsDir i \<and> file_content E k = None)"
    using assms by (auto simp: set_range_of_enumerates Some)
  finally show ?thesis by (simp add: Some)
qed

lemma blob_pass_result:
  assumes "enumerates (map_of_nil (fsFilesMap x)) ks" and "blob_pass E ks v x = Inr (vn, w)"
  shows "vn = (\<lambda>q. if \<exists>i. map_of_nil (fsFilesMap x) q = Some i \<and> \<not> FileInfo_IsDir i
                     then Some (''__'' @ v @ sha1_hex E q) else None)"
    and "mset w =
           mset (map (\<lambda>(k, i). blob_line E (Compressed x) v k)
                  (filter (\<lambda>(k, i). \<not> FileInfo_IsDir i) (range_of (map_of_nil (fsFilesMap x)) ks)))
           + (if fsFilesMap x = None then {#} else {#nl#})"
proof -
  show "vn = (\<lambda>q. if \<exists>i. map_of_nil (fsFilesMap x) q = Some i \<and> \<not> FileInfo_IsDir i
                     then Some (''__'' @ v @ sha1_hex E q) else None)"
  proof (cases "fsFilesMap x")
    case None
    with assms(2) show ?thesis by (auto simp: blob_pass_def)
  next
    case (Some m)
    with assms(2) obtain w0 where
      r: "write_blobs E (Compressed x) v (range_of m ks) Map.empty [] = Inr (vn, w0)"
      by (auto simp: blob_pass_def split: sum.splits)
    from write_blobs_result [OF r] assms(1) show ?thesis
      by (simp add: set_range_of_enumerates Some)
  qed
  show "mset w =
           mset (map (\<lambda>(k, i). blob_line E (Compressed x) v k)
                  (filter (\<lambda>(k, i). \<not> FileInfo_IsDir i) (range_of (map_of_nil (fsFilesMap x)) ks)))
           + (if fsFilesMap x = None then {#} else {#nl#})"
  proof (cases "fsFilesMap x")
    case None
    with assms(2) show ?thesis by (auto simp: blob_pass_def)
  next
    case (Some m)
    with assms(2) obtain w0 where
      r: "write_blobs E (Compressed x) v (range_of m ks) Map.empty [] = Inr (vn, w0)"
      and w: "w = w0 @ [nl]"
      by (auto simp: blob_pass_def split: sum.splits)
    from write_blobs_result [OF r] w show ?thesis
      by (simp add: Some)
  qed
qed

lemma blob_pass_two_orders:
  assumes "enumerates (map_of_nil (fsFilesMap x)) ks" and "enumerates (map_of_nil (fsFilesMap x)) ks'"
    and "blob_pass E ks v x = Inr (vn, w)" and "blob_pass E ks' v x = Inr (vn', w')"
  shows "vn = vn' \<and> mset w = mset w'"
proof -
  have "mset (range_of (map_of_nil (fsFilesMap x)) ks) = mset (range_of (map_of_nil (fsFilesMap x)) ks')"
    using assms(1,2) by (rule mset_range_of)
  then have "mset (map (\<lambda>(k, i). blob_line E (Compressed x) v k)
                  (filter (\<lambda>(k, i). \<not> FileInfo_IsDir i) (range_of (map_of_nil (fsFilesMap x)) ks)))
           = mset (map (\<lambda>(k, i). blob_line E (Compressed x) v k)
                  (filter (\<lambda>(k, i). \<not> FileInfo_IsDir i) (range_of (map_of_nil (fsFilesMap x)) ks')))"
    by simp
  then show ?thesis
    using blob_pass_result [OF assms(1,3)] blob_pass_result [OF assms(2,4)] by simp
qed

lemma mset_file_entries:
  assumes "enumerates (map_of_nil (fsFilesMap x)) ks" and "enumerates (map_of_nil (fsFilesMap x)) ks'"
  shows "mset (map (print_entry E) (file_entries ks vn x)) = mset (map (print_entry E) (file_entries ks' vn x))"
proof -
  have "mset (range_of (map_of_nil (fsFilesMap x)) ks) = mset (range_of (map_of_nil (fsFilesMap x)) ks')"
    using assms by (rule mset_range_of)
  then show ?thesis
    unfolding file_entries_def by simp
qed

lemma build_dirmap_other:
  "q \<notin> post_strip prefix ` fst ` set kvs \<Longrightarrow> build_dirmap prefix kvs dirmap q = dirmap q"
proof (induction kvs arbitrary: dirmap)
  case Nil
  then show ?case by simp
next
  case (Cons kv kvs)
  obtain k v where kv: "kv = (k, v)" by (cases kv)
  from Cons.prems have "q \<notin> post_strip prefix ` fst ` set kvs" and "q \<noteq> post_strip prefix k"
    by (auto simp: kv)
  then show ?case
    unfolding kv build_dirmap_Cons by (simp add: Cons.IH)
qed

lemma build_dirmap_key:
  "distinct (map fst kvs) \<Longrightarrow> inj_on (post_strip prefix) (fst ` set kvs) \<Longrightarrow> (k, v) \<in> set kvs \<Longrightarrow>
   build_dirmap prefix kvs dirmap (post_strip prefix k) = Some (map (post_strip prefix) v)"
proof (induction kvs arbitrary: dirmap)
  case Nil
  then show ?case by simp
next
  case (Cons kv kvs)
  obtain k' v' where kv: "kv = (k', v')" by (cases kv)
  have d: "distinct (map fst kvs)" and n: "k' \<notin> fst ` set kvs"
    using Cons.prems(1) by (auto simp: kv)
  have i: "inj_on (post_strip prefix) (fst ` set kvs)"
    using Cons.prems(2) by (auto simp: kv inj_on_def)
  show ?case
  proof (cases "(k, v) = (k', v')")
    case True
    have "post_strip prefix k' \<notin> post_strip prefix ` fst ` set kvs"
    proof
      assume "post_strip prefix k' \<in> post_strip prefix ` fst ` set kvs"
      then obtain k2 where k2: "k2 \<in> fst ` set kvs" "post_strip prefix k' = post_strip prefix k2"
        by auto
      with Cons.prems(2) have "k' = k2"
        by (auto simp: kv inj_on_def)
      with k2 n show False by simp
    qed
    from build_dirmap_other [OF this] True show ?thesis
      unfolding kv build_dirmap_Cons by simp
  next
    case False
    with Cons.prems(3) have "(k, v) \<in> set kvs"
      by (auto simp: kv)
    from Cons.IH [OF d i this] show ?thesis
      unfolding kv build_dirmap_Cons .
  qed
qed

lemma dirmap_of_two_orders:
  assumes "enumerates (map_of_nil (fsDirsMap x)) ks" and "enumerates (map_of_nil (fsDirsMap x)) ks'"
    and "inj_on (post_strip (StripPrefix x)) (dom (map_of_nil (fsDirsMap x)))"
  shows "dirmap_of ks x = dirmap_of ks' x"
proof (rule ext)
  fix q
  let ?m = "map_of_nil (fsDirsMap x)"
  have key: "dirmap_of o' x q =
               (if q \<in> post_strip (StripPrefix x) ` dom ?m
                then Some (map (post_strip (StripPrefix x))
                             (the (?m (the_inv_into (dom ?m) (post_strip (StripPrefix x)) q))))
                else None)"
    if e: "enumerates ?m o'" for o'
  proof (cases "q \<in> post_strip (StripPrefix x) ` dom ?m")
    case False
    then have "q \<notin> post_strip (StripPrefix x) ` fst ` set (range_of ?m o')"
      using e by (simp add: fst_set_range_of enumerates_def)
    from build_dirmap_other [OF this] False show ?thesis
      by (simp add: dirmap_of_def)
  next
    case True
    then obtain k v where k: "?m k = Some v" "q = post_strip (StripPrefix x) k"
      by auto
    have s: "set o' \<subseteq> dom ?m" using e by (simp add: enumerates_def)
    have "distinct (map fst (range_of ?m o'))"
      using e by (simp add: map_fst_range_of [OF s] enumerates_def)
    moreover have "inj_on (post_strip (StripPrefix x)) (fst ` set (range_of ?m o'))"
      using assms(3) e by (simp add: fst_set_range_of enumerates_def)
    moreover have "(k, v) \<in> set (range_of ?m o')"
      using k e by (simp add: set_range_of_enumerates)
    ultimately have "dirmap_of o' x q = Some (map (post_strip (StripPrefix x)) v)"
      unfolding dirmap_of_def k(2) by (rule build_dirmap_key)
    moreover have "the_inv_into (dom ?m) (post_strip (StripPrefix x)) q = k"
      unfolding k(2) using assms(3) k(1) by (intro the_inv_into_f_f) auto
    ultimately show ?thesis
      using True k(1) by simp
  qed
  show "dirmap_of ks x q = dirmap_of ks' x q"
    using key [OF assms(1)] key [OF assms(2)] by simp
qed


lemma raw_chunks_Inl:
  "blob_pass E (blob_order S) (if VariableName x = [] then ''Assets'' else VariableName x) x = Inl err
   \<Longrightarrow> raw_chunks E S x = Inl err"
  by (simp add: raw_chunks_def Let_def)

lemma raw_chunks_Inr:
  "blob_pass E (blob_order S) (if VariableName x = [] then ''Assets'' else VariableName x) x
     = Inr (vn, blobs) \<Longrightarrow>
   raw_chunks E S x =
     Inr (header (if PackageName x = [] then ''main'' else PackageName x) @ blobs
          @ [''var '' @ (if VariableName x = [] then ''Assets'' else VariableName x)
               @ '' assets.FileSystem'' @ nl @ nl,
             ''func init() {'' @ nl,
             tab @ (if VariableName x = [] then ''Assets'' else VariableName x)
               @ '' = assets.FileSystem{'' @ nl]
          @ [tab @ tab @ ''Dirs: ''
               @ show_dirmap E (dirmap_of (dirs_order S) (make_maps x)) (print_order S) @ '','' @ nl,
             tab @ tab @ ''Files: map[string]*assets.File{'' @ nl]
          @ map (print_entry E) (file_entries (files_order S) vn (make_maps x))
          @ [tab @ tab @ ''},'' @ nl,
             tab @ tab @ ''Compressed: '' @ show_bool (Compressed x) @ '','' @ nl,
             tab @ ''}'' @ nl,
             ''}'' @ nl])"
  by (simp add: raw_chunks_def Let_def)

lemma mset_raw_chunks:
  assumes "blob_pass E (blob_order S) (if VariableName x = [] then ''Assets'' else VariableName x) x
             = Inr (vn, blobs)"
    and "raw_chunks E S x = Inr w"
  shows "mset w =
     mset (header (if PackageName x = [] then ''main'' else PackageName x)) + mset blobs
     + {#''var '' @ (if VariableName x = [] then ''Assets'' else VariableName x)
               @ '' assets.FileSystem'' @ nl @ nl,
         ''func init() {'' @ nl,
         tab @ (if VariableName x = [] then ''Assets'' else VariableName x)
               @ '' = assets.FileSystem{'' @ nl#}
     + {#tab @ tab @ ''Dirs: ''
               @ show_dirmap E (dirmap_of (dirs_order S) (make_maps x)) (print_order S) @ '','' @ nl,
         tab @ tab @ ''Files: map[string]*assets.File{'' @ nl#}
     + mset (map (print_entry E) (file_entries (files_order S) vn (make_maps x)))
     + {#tab @ tab @ ''},'' @ nl,
         tab @ tab @ ''Compressed: '' @ show_bool (Compressed x) @ '','' @ nl,
         tab @ ''}'' @ nl,
         ''}'' @ nl#}"
proof -
  have "Inr w = raw_chunks E S x"
    using assms(2) by simp
  then show ?thesis
    unfolding raw_chunks_Inr [OF assms(1)] by auto
qed

lemma collected_enumerations:
  "enumerates (map_of_nil (fsFilesMap collected_generator)) [''a'', ''a/b.txt'', ''a/c'']"
  "enumerates (map_of_nil (fsFilesMap collected_generator)) [''a/c'', ''a/b.txt'', ''a'']"
  "enumerates (map_of_nil (fsDirsMap collected_generator)) [''a'', ''a/c'']"
  "enumerates (map_of_nil (fsDirsMap collected_generator)) [''a/c'', ''a'']"
  by (auto simp: enumerates_def collected_generator_def)

lemma collected_post_strip:
  "post_strip ''a'' ''a'' = ''/''" "post_strip ''a'' ''a/c'' = ''/c''"
  "post_strip ''a'' ''a/b.txt'' = ''/b.txt''"
  by (simp_all add: post_strip_def TrimPrefix_def HasPrefix_def)

lemma collected_no_collision:
  "inj_on (post_strip (StripPrefix collected_generator)) (dom (map_of_nil (fsDirsMap collected_generator)))"
  by (simp add: collected_generator_def collected_post_strip)

lemma collected_blob_pass:
  "\<exists>vn blobs. blob_pass example_externals [''a'', ''a/b.txt'', ''a/c'']
      (if VariableName collected_generator = [] then ''Assets'' else VariableName collected_generator)
      collected_generator = Inr (vn, blobs)"
proof -
  let ?v = "if VariableName collected_generator = [] then ''Assets'' else VariableName collected_generator"
  have "file_content example_externals ''a/b.txt'' = Some ''hi''"
    by (simp add: file_content_def example_externals_def)
  then have "\<not> (\<exists>k i. map_of_nil (fsFilesMap collected_generator) k = Some i \<and> \<not> FileInfo_IsDir i \<and>
                 file_content example_externals k = None)"
    using example_kinds by (auto simp: collected_generator_def split: if_splits)
  then have "\<not> (\<exists>err. blob_pass example_externals [''a'', ''a/b.txt'', ''a/c''] ?v collected_generator = Inl err)"
    unfolding blob_pass_error_iff [OF collected_enumerations(1)] .
  then show ?thesis
    by (cases "blob_pass example_externals [''a'', ''a/b.txt'', ''a/c''] ?v collected_generator") auto
qed

lemma print_entry_head:
  "\<exists>rest. print_entry example_externals e @ R =
     CHR 0x09 # CHR 0x09 # CHR 0x09 # CHR 0x22 # e_key e @ CHR 0x22 # rest"
  by (simp add: print_entry_def tab_def dq_def example_externals_def)

lemma collected_entries:
  "file_entries [''a'', ''a/b.txt'', ''a/c''] vn (make_maps collected_generator) =
     [file_entry ''a'' vn ''a'' info_a, file_entry ''a'' vn ''a/b.txt'' info_b,
      file_entry ''a'' vn ''a/c'' info_c]"
  "file_entries [''a/c'', ''a/b.txt'', ''a''] vn (make_maps collected_generator) =
     [file_entry ''a'' vn ''a/c'' info_c, file_entry ''a'' vn ''a/b.txt'' info_b,
      file_entry ''a'' vn ''a'' info_a]"
  by (simp_all add: file_entries_def range_of_Cons collected_generator_def)

lemma Write_accepted:
  "raw_chunks E S x = Inr w \<Longrightarrow> format_Source E = Inr \<Longrightarrow> fst (Write E S x) = Inr (concat w)"
  by (simp add: Write_def raw_text_def)

text \<open>
  Claim C5, as stated: two runs of the serializer on one collector state, with the same
  options and file contents, write the same text. \<open>Write\<close> ranges over \<open>fsFilesMap\<close>
  without sorting the keys, and Go does not fix the order of a \<open>range\<close> over a map: on the
  collected example, the run that visits \<open>a\<close>, \<open>a/b.txt\<close>, \<open>a/c\<close> and the run that visits
  them in the opposite order write different texts.
\<close>

theorem write_order_counterexample:
  "fst (Write example_externals schedule_1 collected_generator)
     \<noteq> fst (Write example_externals schedule_2 collected_generator)"
proof
  assume eq: "fst (Write example_externals schedule_1 collected_generator)
                = fst (Write example_externals schedule_2 collected_generator)"
  obtain vn blobs where
    b: "blob_pass example_externals [''a'', ''a/b.txt'', ''a/c'']
          (if VariableName collected_generator = [] then ''Assets'' else VariableName collected_generator)
          collected_generator = Inr (vn, blobs)"
    using collected_blob_pass by blast
  have b1: "blob_pass example_externals (blob_order schedule_1)
          (if VariableName collected_generator = [] then ''Assets'' else VariableName collected_generator)
          collected_generator = Inr (vn, blobs)"
    using b by (simp add: schedule_1_def)
  have b2: "blob_pass example_externals (blob_order schedule_2)
          (if VariableName collected_generator = [] then ''Assets'' else VariableName collected_generator)
          collected_generator = Inr (vn, blobs)"
    using b by (simp add: schedule_2_def)
  have f: "format_Source example_externals = Inr"
    by (simp add: example_externals_def)
  have o: "dirs_order schedule_2 = dirs_order schedule_1" "print_order schedule_2 = print_order schedule_1"
    "files_order schedule_1 = [''a'', ''a/b.txt'', ''a/c'']"
    "files_order schedule_2 = [''a/c'', ''a/b.txt'', ''a'']"
    by (simp_all add: schedule_1_def schedule_2_def)
  define ea where "ea = file_entry ''a'' vn ''a'' info_a"
  define eb where "eb = file_entry ''a'' vn ''a/b.txt'' info_b"
  define ec where "ec = file_entry ''a'' vn ''a/c'' info_c"
  define Q where "Q = concat [tab @ tab @ ''},'' @ nl,
             tab @ tab @ ''Compressed: '' @ show_bool (Compressed collected_generator) @ '','' @ nl,
             tab @ ''}'' @ nl, ''}'' @ nl]"
  have "concat (map (print_entry example_externals) [ea, eb, ec]) @ Q
      = concat (map (print_entry example_externals) [ec, eb, ea]) @ Q"
    using eq
    unfolding Write_accepted [OF raw_chunks_Inr [OF b1] f] Write_accepted [OF raw_chunks_Inr [OF b2] f]
      o collected_entries ea_def [symmetric] eb_def [symmetric] ec_def [symmetric]
    by (simp add: Q_def)
  then have "print_entry example_externals ea
               @ (print_entry example_externals eb @ print_entry example_externals ec @ Q)
           = print_entry example_externals ec
               @ (print_entry example_externals eb @ print_entry example_externals ea @ Q)"
    by simp
  moreover obtain r1 where
    "print_entry example_externals ea
       @ (print_entry example_externals eb @ print_entry example_externals ec @ Q)
     = CHR 0x09 # CHR 0x09 # CHR 0x09 # CHR 0x22 # e_key ea @ CHR 0x22 # r1"
    using print_entry_head by blast
  moreover obtain r2 where
    "print_entry example_externals ec
       @ (print_entry example_externals eb @ print_entry example_externals ea @ Q)
     = CHR 0x09 # CHR 0x09 # CHR 0x09 # CHR 0x22 # e_key ec @ CHR 0x22 # r2"
    using print_entry_head by blast
  moreover have "e_key ea = ''/''" "e_key ec = ''/c''"
    by (simp_all add: ea_def ec_def e_key_file_entry collected_post_strip)
  ultimately show False
    by simp
qed

text \<open>
  Claim C5, amended. The output is determined up to the order in which the two maps are
  iterated. For one collector state, options and file contents, and any two runs: either
  both fail in the pass that reads the files or neither does; if no two keys of the
  directory mapping collide after stripping and \<open>fmt\<close> prints the directory-listing
  mapping in the same key order in both runs, the two texts handed to the canonicalizer
  are made of the same pieces (header, blob declarations, directory-listing line, entry
  literals, closing lines), the declarations and the literals possibly in a different
  order; and if moreover both runs visit the keys of \<open>fsFilesMap\<close> in the same order, the
  texts and the results of \<open>Write\<close> are identical.
\<close>

theorem write_up_to_iteration_order:
  assumes "enumerates (map_of_nil (fsFilesMap x)) (blob_order S)"
    and "enumerates (map_of_nil (fsFilesMap x)) (blob_order S')"
    and "enumerates (map_of_nil (fsFilesMap x)) (files_order S)"
    and "enumerates (map_of_nil (fsFilesMap x)) (files_order S')"
    and "enumerates (map_of_nil (fsDirsMap x)) (dirs_order S)"
    and "enumerates (map_of_nil (fsDirsMap x)) (dirs_order S')"
    and "inj_on (post_strip (StripPrefix x)) (dom (map_of_nil (fsDirsMap x)))"
    and "print_order S = print_order S'"
  shows "((\<exists>err. raw_chunks E S x = Inl err) \<longleftrightarrow> (\<exists>err. raw_chunks E S' x = Inl err))
       \<and> (\<forall>w w'. raw_chunks E S x = Inr w \<and> raw_chunks E S' x = Inr w' \<longrightarrow> mset w = mset w')
       \<and> (blob_order S = blob_order S' \<and> files_order S = files_order S' \<longrightarrow>
            raw_text E S x = raw_text E S' x \<and> Write E S x = Write E S' x)"
proof -
  let ?v = "if VariableName x = [] then ''Assets'' else VariableName x"
  let ?x = "make_maps x"
  have D: "dirmap_of (dirs_order S) ?x = dirmap_of (dirs_order S') ?x"
    using assms(5,6,7) by (intro dirmap_of_two_orders) simp_all
  have chunks_err: "(\<exists>err. raw_chunks E T x = Inl err) \<longleftrightarrow> (\<exists>err. blob_pass E (blob_order T) ?v x = Inl err)"
    for T
  proof (cases "blob_pass E (blob_order T) ?v x")
    case (Inl err)
    then show ?thesis using raw_chunks_Inl [OF Inl] by simp
  next
    case (Inr r)
    obtain vn blobs where "r = (vn, blobs)" by (cases r)
    with Inr show ?thesis using raw_chunks_Inr [of E T x vn blobs] by simp
  qed
  have one: "(\<exists>err. raw_chunks E S x = Inl err) \<longleftrightarrow> (\<exists>err. raw_chunks E S' x = Inl err)"
    unfolding chunks_err blob_pass_error_iff [OF assms(1)] blob_pass_error_iff [OF assms(2)] ..
  have two: "mset w = mset w'" if w: "raw_chunks E S x = Inr w" and w': "raw_chunks E S' x = Inr w'"
    for w w'
  proof -
    from w chunks_err [of S] obtain vn blobs where
      b: "blob_pass E (blob_order S) ?v x = Inr (vn, blobs)"
      by (cases "blob_pass E (blob_order S) ?v x") auto
    from w' chunks_err [of S'] obtain vn' blobs' where
      b': "blob_pass E (blob_order S') ?v x = Inr (vn', blobs')"
      by (cases "blob_pass E (blob_order S') ?v x") auto
    have e: "vn = vn' \<and> mset blobs = mset blobs'"
      using assms(1,2) b b' by (rule blob_pass_two_orders)
    then have e2: "mset blobs = mset blobs'" and b'': "blob_pass E (blob_order S') ?v x = Inr (vn, blobs')"
      using b' by simp_all
    have f: "mset (map (print_entry E) (file_entries (files_order S) vn ?x))
           = mset (map (print_entry E) (file_entries (files_order S') vn ?x))"
      using assms(3,4) by (intro mset_file_entries) simp_all
    show ?thesis
      unfolding mset_raw_chunks [OF b w] mset_raw_chunks [OF b'' w']
      by (simp only: e2 f D assms(8))
  qed
  have three: "raw_text E S x = raw_text E S' x \<and> Write E S x = Write E S' x"
    if "blob_order S = blob_order S' \<and> files_order S = files_order S'"
  proof -
    have bo: "blob_order S = blob_order S'" and fo: "files_order S = files_order S'"
      using that by simp_all
    have "raw_chunks E S x = raw_chunks E S' x"
    proof (cases "blob_pass E (blob_order S) ?v x")
      case (Inl err)
      then have Inl': "blob_pass E (blob_order S') ?v x = Inl err"
        by (simp only: bo)
      show ?thesis
        unfolding raw_chunks_Inl [OF Inl] raw_chunks_Inl [OF Inl'] ..
    next
      case (Inr r)
      obtain vn blobs where r: "r = (vn, blobs)" by (cases r)
      have b: "blob_pass E (blob_order S) ?v x = Inr (vn, blobs)"
        using Inr r by simp
      then have b': "blob_pass E (blob_order S') ?v x = Inr (vn, blobs)"
        by (simp only: bo)
      show ?thesis
        unfolding raw_chunks_Inr [OF b] raw_chunks_Inr [OF b']
        by (simp only: D assms(8) fo)
    qed
    then have "raw_text E S x = raw_text E S' x"
      by (simp add: raw_text_def)
    then show ?thesis
      by (simp add: Write_def)
  qed
  show ?thesis
    using one two three by blast
qed

theorem write_up_to_iteration_order_witness:
  "(\<exists>w w'. raw_chunks example_externals schedule_1 collected_generator = Inr w \<and>
            raw_chunks example_externals schedule_2 collected_generator = Inr w' \<and>
            mset w = mset w') \<and>
   Write example_externals schedule_1 collected_generator
     = Write example_externals schedule_3 collected_generator"
proof -
  obtain vn blobs where
    b: "blob_pass example_externals [''a'', ''a/b.txt'', ''a/c'']
          (if VariableName collected_generator = [] then ''Assets'' else VariableName collected_generator)
          collected_generator = Inr (vn, blobs)"
    using collected_blob_pass by blast
  have b1: "blob_pass example_externals (blob_order schedule_1)
          (if VariableName collected_generator = [] then ''Assets'' else VariableName collected_generator)
          collected_generator = Inr (vn, blobs)"
    using b by (simp add: schedule_1_def)
  have b2: "blob_pass example_externals (blob_order schedule_2)
          (if VariableName collected_generator = [] then ''Assets'' else VariableName collected_generator)
          collected_generator = Inr (vn, blobs)"
    using b by (simp add: schedule_2_def)
  obtain w where w: "raw_chunks example_externals schedule_1 collected_generator = Inr w"
    using raw_chunks_Inr [OF b1] by blast
  obtain w' where w': "raw_chunks example_externals schedule_2 collected_generator = Inr w'"
    using raw_chunks_Inr [OF b2] by blast
  have e12: "enumerates (map_of_nil (fsFilesMap collected_generator)) (blob_order schedule_1)"
    "enumerates (map_of_nil (fsFilesMap collected_generator)) (blob_order schedule_2)"
    "enumerates (map_of_nil (fsFilesMap collected_generator)) (files_order schedule_1)"
    "enumerates (map_of_nil (fsFilesMap collected_generator)) (files_order schedule_2)"
    "enumerates (map_of_nil (fsDirsMap collected_generator)) (dirs_order schedule_1)"
    "enumerates (map_of_nil (fsDirsMap collected_generator)) (dirs_order schedule_2)"
    using collected_enumerations by (simp_all add: schedule_1_def schedule_2_def)
  have e3: "enumerates (map_of_nil (fsFilesMap collected_generator)) (blob_order schedule_3)"
    "enumerates (map_of_nil (fsFilesMap collected_generator)) (files_order schedule_3)"
    "enumerates (map_of_nil (fsDirsMap collected_generator)) (dirs_order schedule_3)"
    using collected_enumerations by (simp_all add: schedule_3_def)
  have p12: "print_order schedule_1 = print_order schedule_2"
    by (simp add: schedule_1_def schedule_2_def)
  have p13: "print_order schedule_1 = print_order schedule_3"
    "blob_order schedule_1 = blob_order schedule_3 \<and> files_order schedule_1 = files_order schedule_3"
    by (simp_all add: schedule_1_def schedule_3_def)
  have "mset w = mset w'"
    using write_up_to_iteration_order [OF e12 collected_no_collision p12, of example_externals] w w'
    by blast
  moreover have "Write example_externals schedule_1 collected_generator
                   = Write example_externals schedule_3 collected_generator"
    using write_up_to_iteration_order [OF e12(1) e3(1) e12(3) e3(2) e12(5) e3(3)
        collected_no_collision p13(1), of example_externals] p13(2)
    by blast
  ultimately show ?thesis
    using w w' by blast
qed

subsection \<open>The keys of the two emitted mappings\<close>

lemma single_paths:
  "Clean ''a/b.txt'' = ''a/b.txt''" "Dir ''a/b.txt'' = ''a''"
  by code_simp+

lemma Add_single: "Add single_Stat ''a/b.txt'' example_generator = (None, single_generator)"
  by (simp add: Add_def single_Stat_def single_paths example_paths example_kinds example_names
      example_generator_def single_generator_def Let_def)

lemma print_entry_file_entry:
  "print_entry E (file_entry prefix vnames k i) =
     tab @ tab @ tab @ go_quote E (post_strip prefix k) @ '': &assets.File{'' @ nl
     @ tab @ tab @ tab @ tab @ ''Path:     '' @ go_quote E (post_strip prefix k) @ '','' @ nl
     @ tab @ tab @ tab @ tab @ ''FileMode: '' @ show_FileMode (fi_Mode i) @ '','' @ nl
     @ tab @ tab @ tab @ tab @ ''MTime:    time.Unix('' @ show_int64 (Time_Unix (fi_ModTime i))
         @ '', '' @ show_int64 (Time_UnixNano (fi_ModTime i)) @ ''),'' @ nl
     @ (if FileInfo_IsDir i then []
        else tab @ tab @ tab @ tab @ ''Data:     ''
               @ (case vnames k of None \<Rightarrow> [] | Some vname \<Rightarrow> vname) @ '','' @ nl)
     @ tab @ tab @ tab @ ''},'' @ nl"
  by (simp add: print_entry_def file_entry_def post_strip_def Let_def)

lemma entries_text:
  "map (print_entry E) (file_entries ks vnames x) =
     map (\<lambda>(k, i).
            tab @ tab @ tab @ go_quote E (post_strip (StripPrefix x) k) @ '': &assets.File{'' @ nl
            @ tab @ tab @ tab @ tab @ ''Path:     '' @ go_quote E (post_strip (StripPrefix x) k)
                @ '','' @ nl
            @ tab @ tab @ tab @ tab @ ''FileMode: '' @ show_FileMode (fi_Mode i) @ '','' @ nl
            @ tab @ tab @ tab @ tab @ ''MTime:    time.Unix('' @ show_int64 (Time_Unix (fi_ModTime i))
                @ '', '' @ show_int64 (Time_UnixNano (fi_ModTime i)) @ ''),'' @ nl
            @ (if FileInfo_IsDir i then []
               else tab @ tab @ tab @ tab @ ''Data:     ''
                      @ (case vnames k of None \<Rightarrow> [] | Some vname \<Rightarrow> vname) @ '','' @ nl)
            @ tab @ tab @ tab @ ''},'' @ nl)
       (range_of (map_of_nil (fsFilesMap x)) ks)"
  unfolding file_entries_def map_map comp_def
  by (rule map_cong [OF refl]) (simp add: case_prod_beta print_entry_file_entry)

lemma dirs_text:
  "show_dirmap E dirmap ks =
     ''map[string][]string{''
     @ join_with '', ''
         (map (\<lambda>(kk, vv). go_quote E kk @ '':[]string{''
                 @ join_with '', '' (map (go_quote E) vv) @ ''}'')
            (range_of dirmap ks))
     @ ''}''"
proof -
  have "map (\<lambda>(k, v). go_quote E k @ '':'' @ show_strings E v) (range_of dirmap ks) =
        map (\<lambda>(kk, vv). go_quote E kk @ '':[]string{''
                 @ join_with '', '' (map (go_quote E) vv) @ ''}'') (range_of dirmap ks)"
    by (rule map_cong [OF refl]) (simp add: case_prod_beta show_strings_def)
  then show ?thesis
    unfolding show_dirmap_def by (simp only:)
qed


lemma emitted_text:
  assumes "blob_pass E (blob_order S) (if VariableName x = [] then ''Assets'' else VariableName x) x
             = Inr (vnames, blobs)"
  shows "raw_text E S x =
     Inr (concat
       (header (if PackageName x = [] then ''main'' else PackageName x) @ blobs
        @ [''var '' @ (if VariableName x = [] then ''Assets'' else VariableName x)
             @ '' assets.FileSystem'' @ nl @ nl,
           ''func init() {'' @ nl,
           tab @ (if VariableName x = [] then ''Assets'' else VariableName x)
             @ '' = assets.FileSystem{'' @ nl]
        @ [tab @ tab @ ''Dirs: ''
             @ (''map[string][]string{''
                @ join_with '', ''
                    (map (\<lambda>(kk, vv). go_quote E kk @ '':[]string{''
                            @ join_with '', '' (map (go_quote E) vv) @ ''}'')
                       (range_of (dirmap_of (dirs_order S) (make_maps x)) (print_order S)))
                @ ''}'')
             @ '','' @ nl,
           tab @ tab @ ''Files: map[string]*assets.File{'' @ nl]
        @ map (\<lambda>(k, i).
            tab @ tab @ tab @ go_quote E (post_strip (StripPrefix x) k) @ '': &assets.File{'' @ nl
            @ tab @ tab @ tab @ tab @ ''Path:     '' @ go_quote E (post_strip (StripPrefix x) k)
                @ '','' @ nl
            @ tab @ tab @ tab @ tab @ ''FileMode: '' @ show_FileMode (fi_Mode i) @ '','' @ nl
            @ tab @ tab @ tab @ tab @ ''MTime:    time.Unix('' @ show_int64 (Time_Unix (fi_ModTime i))
                @ '', '' @ show_int64 (Time_UnixNano (fi_ModTime i)) @ ''),'' @ nl
            @ (if FileInfo_IsDir i then []
               else tab @ tab @ tab @ tab @ ''Data:     ''
                      @ (case vnames k of None \<Rightarrow> [] | Some vname \<Rightarrow> vname) @ '','' @ nl)
            @ tab @ tab @ tab @ ''},'' @ nl)
          (range_of (map_of_nil (fsFilesMap x)) (files_order S))
        @ [tab @ tab @ ''},'' @ nl,
           tab @ tab @ ''Compressed: '' @ show_bool (Compressed x) @ '','' @ nl,
           tab @ ''}'' @ nl,
           ''}'' @ nl]))"
  unfolding raw_text_def raw_chunks_Inr [OF assms] dirs_text entries_text
    make_maps_fields map_of_nil_make_maps
  by (simp only: sum.case)

lemma example_externals_fields:
  "os_Open example_externals ''a/b.txt'' = Inr (Inr ''hi'')"
  "go_quote example_externals q = dq @ q @ dq"
  "format_Source example_externals = Inr"
  by (simp_all add: example_externals_def)

lemma example_numbers:
  "show_FileMode 0x1A4 = ''0x1a4''" "show_FileMode 0x800001ED = ''0x800001ed''"
  "show_int64 1 = ''1''" "show_int64 1000000000 = ''1000000000''"
  by (simp_all add: show_FileMode_def show_int64_def hex_nat.simps dec_nat.simps)

lemma example_infos:
  "fi_Mode info_a = 0x800001ED" "fi_Mode info_b = 0x1A4" "fi_Mode info_c = 0x800001ED"
  "Time_Unix (fi_ModTime info_a) = 1" "Time_Unix (fi_ModTime info_b) = 1"
  "Time_Unix (fi_ModTime info_c) = 1"
  "Time_UnixNano (fi_ModTime info_a) = 1000000000" "Time_UnixNano (fi_ModTime info_b) = 1000000000"
  "Time_UnixNano (fi_ModTime info_c) = 1000000000"
  by (simp_all add: info_a_def info_b_def info_c_def Time_Unix_def Time_UnixNano_def wrap64_def)

lemma single_blob_pass:
  "blob_pass example_externals [''a/b.txt''] ''Assets'' single_generator =
     Inr ([''a/b.txt'' \<mapsto> ''__Assets'' @ sha1_hex example_externals ''a/b.txt''],
          [''var '' @ (''__Assets'' @ sha1_hex example_externals ''a/b.txt'') @ '' = []byte(''
             @ dq @ ''hi'' @ dq @ '')'' @ nl,
           nl])"
  by (simp add: blob_pass_def single_generator_def range_of_Cons example_kinds
      example_externals_fields Let_def)

lemma single_dirmap:
  "dirmap_of [''a''] (make_maps single_generator) = [''/'' \<mapsto> [''b.txt'']]"
proof -
  have "post_strip ''a'' ''b.txt'' = ''b.txt''"
    by (simp add: post_strip_def TrimPrefix_def HasPrefix_def)
  then show ?thesis
    by (simp add: dirmap_of_def single_generator_def range_of_Cons build_dirmap_Cons
        collected_post_strip del: build_dirmap.simps(2))
qed

text \<open>
  Claim C9, as stated: every emitted directory-listing key string is also an emitted
  entries key string. \<open>Add\<close> of a single file appends its name to the listing of its
  parent directory without registering that directory: after \<open>Add\<close> of \<open>a/b.txt\<close> alone,
  with the prefix \<open>a\<close>, the emitted text has the directory-listing key \<open>/\<close> and the one
  entries key \<open>/b.txt\<close>.
\<close>

theorem dirs_key_without_entry_counterexample:
  "Add single_Stat ''a/b.txt'' example_generator = (None, single_generator) \<and>
   dom (dirmap_of (dirs_order single_schedule) (make_maps single_generator)) = {''/''} \<and>
   map e_key (file_entries (files_order single_schedule) Map.empty (make_maps single_generator))
     = [''/b.txt''] \<and>
   fst (Write example_externals single_schedule single_generator) =
     Inr (''package main'' @ nl @ nl
        @ ''import ('' @ nl
        @ tab @ dq @ ''github.com/jessevdk/go-assets'' @ dq @ nl
        @ tab @ dq @ ''time'' @ dq @ nl
        @ '')'' @ nl @ nl
        @ ''var __Assets'' @ (sha1_hex example_externals ''a/b.txt'') @ '' = []byte('' @ dq @ ''hi'' @ dq @ '')'' @ nl @ nl
        @ ''var Assets assets.FileSystem'' @ nl @ nl
        @ ''func init() {'' @ nl
        @ tab @ ''Assets = assets.FileSystem{'' @ nl
        @ tab @ tab @ ''Dirs: map[string][]string{'' @ dq @ ''/'' @ dq @ '':[]string{'' @ dq @ ''b.txt'' @ dq @ ''}},'' @ nl
        @ tab @ tab @ ''Files: map[string]*assets.File{'' @ nl
        @ tab @ tab @ tab @ dq @ ''/b.txt'' @ dq @ '': &assets.File{'' @ nl
        @ tab @ tab @ tab @ tab @ ''Path:     '' @ dq @ ''/b.txt'' @ dq @ '','' @ nl
        @ tab @ tab @ tab @ tab @ ''FileMode: 0x1a4,'' @ nl
        @ tab @ tab @ tab @ tab @ ''MTime:    time.Unix(1, 1000000000),'' @ nl
        @ tab @ tab @ tab @ tab @ ''Data:     __Assets'' @ (sha1_hex example_externals ''a/b.txt'') @ '','' @ nl
        @ tab @ tab @ tab @ ''},'' @ nl
        @ tab @ tab @ ''},'' @ nl
        @ tab @ tab @ ''Compressed: false,'' @ nl
        @ tab @ ''}'' @ nl
        @ ''}'' @ nl)"
proof -
  have o: "blob_order single_schedule = [''a/b.txt'']" "dirs_order single_schedule = [''a'']"
    "print_order single_schedule = [''/'']" "files_order single_schedule = [''a/b.txt'']"
    by (simp_all add: single_schedule_def)
  have g: "PackageName single_generator = []" "VariableName single_generator = []"
    "StripPrefix single_generator = ''a''" "\<not> Compressed single_generator"
    "map_of_nil (fsFilesMap single_generator) = [''a/b.txt'' \<mapsto> info_b]"
    by (simp_all add: single_generator_def)
  have b: "blob_pass example_externals (blob_order single_schedule)
             (if VariableName single_generator = [] then ''Assets'' else VariableName single_generator)
             single_generator
           = Inr ([''a/b.txt'' \<mapsto> ''__Assets'' @ sha1_hex example_externals ''a/b.txt''],
                  [''var '' @ (''__Assets'' @ sha1_hex example_externals ''a/b.txt'') @ '' = []byte(''
                     @ dq @ ''hi'' @ dq @ '')'' @ nl,
                   nl])"
    using single_blob_pass by (simp add: o g)
  have t: "raw_text example_externals single_schedule single_generator =
     Inr (''package main'' @ nl @ nl
        @ ''import ('' @ nl
        @ tab @ dq @ ''github.com/jessevdk/go-assets'' @ dq @ nl
        @ tab @ dq @ ''time'' @ dq @ nl
        @ '')'' @ nl @ nl
        @ ''var __Assets'' @ (sha1_hex example_externals ''a/b.txt'') @ '' = []byte('' @ dq @ ''hi'' @ dq @ '')'' @ nl @ nl
        @ ''var Assets assets.FileSystem'' @ nl @ nl
        @ ''func init() {'' @ nl
        @ tab @ ''Assets = assets.FileSystem{'' @ nl
        @ tab @ tab @ ''Dirs: map[string][]string{'' @ dq @ ''/'' @ dq @ '':[]string{'' @ dq @ ''b.txt'' @ dq @ ''}},'' @ nl
        @ tab @ tab @ ''Files: map[string]*assets.File{'' @ nl
        @ tab @ tab @ tab @ dq @ ''/b.txt'' @ dq @ '': &assets.File{'' @ nl
        @ tab @ tab @ tab @ tab @ ''Path:     '' @ dq @ ''/b.txt'' @ dq @ '','' @ nl
        @ tab @ tab @ tab @ tab @ ''FileMode: 0x1a4,'' @ nl
        @ tab @ tab @ tab @ tab @ ''MTime:    time.Unix(1, 1000000000),'' @ nl
        @ tab @ tab @ tab @ tab @ ''Data:     __Assets'' @ (sha1_hex example_externals ''a/b.txt'') @ '','' @ nl
        @ tab @ tab @ tab @ ''},'' @ nl
        @ tab @ tab @ ''},'' @ nl
        @ tab @ tab @ ''Compressed: false,'' @ nl
        @ tab @ ''}'' @ nl
        @ ''}'' @ nl)"
    unfolding emitted_text [OF b] o single_dirmap
    by (simp add: g range_of_Cons header_def show_bool_def example_externals_fields example_numbers
        example_infos example_kinds collected_post_strip)
  have d: "dom (dirmap_of (dirs_order single_schedule) (make_maps single_generator)) = {''/''}"
    by (simp add: o single_dirmap)
  have k: "map e_key (file_entries (files_order single_schedule) Map.empty (make_maps single_generator))
             = [''/b.txt'']"
    by (simp add: o file_entries_def g range_of_Cons e_key_file_entry collected_post_strip)
  show ?thesis
    using Add_single d k Write_result [OF t]
    by (simp add: example_externals_fields)
qed

lemma collected_blob_pass_value:
  "blob_pass example_externals [''a'', ''a/b.txt'', ''a/c''] ''Assets'' collected_generator =
     Inr ([''a/b.txt'' \<mapsto> ''__Assets'' @ sha1_hex example_externals ''a/b.txt''],
          [''var '' @ (''__Assets'' @ sha1_hex example_externals ''a/b.txt'') @ '' = []byte(''
             @ dq @ ''hi'' @ dq @ '')'' @ nl,
           nl])"
  by (simp add: blob_pass_def collected_generator_def range_of_Cons example_kinds
      example_externals_fields Let_def)

lemma collected_dirmap:
  "dirmap_of [''a'', ''a/c''] (make_maps collected_generator) = [''/'' \<mapsto> [''b.txt''], ''/c'' \<mapsto> []]"
proof -
  have "post_strip ''a'' ''b.txt'' = ''b.txt''"
    by (simp add: post_strip_def TrimPrefix_def HasPrefix_def)
  then show ?thesis
    by (simp add: dirmap_of_def collected_generator_def range_of_Cons build_dirmap_Cons
        collected_post_strip del: build_dirmap.simps(2))
qed

lemma collected_ranges:
  "range_of [''/'' \<mapsto> [''b.txt''], ''/c'' \<mapsto> ([]::string list)] [''/'', ''/c'']
     = [(''/'', [''b.txt'']), (''/c'', [])]"
  "range_of [''a'' \<mapsto> info_a, ''a/b.txt'' \<mapsto> info_b, ''a/c'' \<mapsto> info_c]
       [''a'', ''a/b.txt'', ''a/c'']
     = [(''a'', info_a), (''a/b.txt'', info_b), (''a/c'', info_c)]"
  by (simp_all add: range_of_Cons)

text \<open>
  Claim C9, amended. The serializer applies the same transformation, \<open>post_strip\<close>
  (remove the prefix, substitute \<open>/\<close> when nothing is left), to the keys of both maps, and
  the strings it produces are the keys of the emitted text: whenever the pass over the
  file contents succeeds, the text handed to the canonicalizer is the one displayed, whose
  directory-listing line has one key for each \<open>post_strip\<close> image of a key of \<open>fsDirsMap\<close>
  and whose entry literals have, as key and as \<open>Path\<close>, the \<open>post_strip\<close> image of each
  key of \<open>fsFilesMap\<close>. So an original path that is a key of both maps is emitted under
  one and the same key string in both mappings, and a path equal to the prefix is emitted
  under \<open>/\<close> in each mapping that holds it. A directory-listing key whose original path
  is not a key of \<open>fsFilesMap\<close> has no entries key.
\<close>

theorem same_post_strip_keys:
  assumes "enumerates (map_of_nil (fsDirsMap x)) (dirs_order S)"
    and "enumerates (map_of_nil (fsFilesMap x)) (files_order S)"
    and "enumerates (dirmap_of (dirs_order S) (make_maps x)) (print_order S)"
    and "blob_pass E (blob_order S) (if VariableName x = [] then ''Assets'' else VariableName x) x
           = Inr (vnames, blobs)"
  shows "raw_text E S x =
     Inr (concat
       (header (if PackageName x = [] then ''main'' else PackageName x) @ blobs
        @ [''var '' @ (if VariableName x = [] then ''Assets'' else VariableName x)
             @ '' assets.FileSystem'' @ nl @ nl,
           ''func init() {'' @ nl,
           tab @ (if VariableName x = [] then ''Assets'' else VariableName x)
             @ '' = assets.FileSystem{'' @ nl]
        @ [tab @ tab @ ''Dirs: ''
             @ (''map[string][]string{''
                @ join_with '', ''
                    (map (\<lambda>(kk, vv). go_quote E kk @ '':[]string{''
                            @ join_with '', '' (map (go_quote E) vv) @ ''}'')
                       (range_of (dirmap_of (dirs_order S) (make_maps x)) (print_order S)))
                @ ''}'')
             @ '','' @ nl,
           tab @ tab @ ''Files: map[string]*assets.File{'' @ nl]
        @ map (\<lambda>(k, i).
            tab @ tab @ tab @ go_quote E (post_strip (StripPrefix x) k) @ '': &assets.File{'' @ nl
            @ tab @ tab @ tab @ tab @ ''Path:     '' @ go_quote E (post_strip (StripPrefix x) k)
                @ '','' @ nl
            @ tab @ tab @ tab @ tab @ ''FileMode: '' @ show_FileMode (fi_Mode i) @ '','' @ nl
            @ tab @ tab @ tab @ tab @ ''MTime:    time.Unix('' @ show_int64 (Time_Unix (fi_ModTime i))
                @ '', '' @ show_int64 (Time_UnixNano (fi_ModTime i)) @ ''),'' @ nl
            @ (if FileInfo_IsDir i then []
               else tab @ tab @ tab @ tab @ ''Data:     ''
                      @ (case vnames k of None \<Rightarrow> [] | Some vname \<Rightarrow> vname) @ '','' @ nl)
            @ tab @ tab @ tab @ ''},'' @ nl)
          (range_of (map_of_nil (fsFilesMap x)) (files_order S))
        @ [tab @ tab @ ''},'' @ nl,
           tab @ tab @ ''Compressed: '' @ show_bool (Compressed x) @ '','' @ nl,
           tab @ ''}'' @ nl,
           ''}'' @ nl]))
       \<and> map fst (range_of (dirmap_of (dirs_order S) (make_maps x)) (print_order S)) = print_order S
       \<and> set (print_order S) = post_strip (StripPrefix x) ` dom (map_of_nil (fsDirsMap x))
       \<and> map fst (range_of (map_of_nil (fsFilesMap x)) (files_order S)) = files_order S
       \<and> set (files_order S) = dom (map_of_nil (fsFilesMap x))
       \<and> (\<forall>k. k \<in> dom (map_of_nil (fsDirsMap x)) \<and> k \<in> dom (map_of_nil (fsFilesMap x)) \<longrightarrow>
              post_strip (StripPrefix x) k \<in> set (print_order S) \<and> k \<in> set (files_order S))
       \<and> (StripPrefix x \<in> dom (map_of_nil (fsDirsMap x)) \<longrightarrow> ''/'' \<in> set (print_order S))
       \<and> (StripPrefix x \<in> dom (map_of_nil (fsFilesMap x)) \<longrightarrow>
              StripPrefix x \<in> set (files_order S) \<and>
              post_strip (StripPrefix x) (StripPrefix x) = ''/'')
       \<and> dom (dirmap_of (dirs_order S) (make_maps x))
           = post_strip (StripPrefix x) ` dom (map_of_nil (fsDirsMap x))
       \<and> map e_key (file_entries (files_order S) vnames (make_maps x))
           = map (post_strip (StripPrefix x)) (files_order S)
       \<and> map e_Path (file_entries (files_order S) vnames (make_maps x))
           = map (post_strip (StripPrefix x)) (files_order S)"
proof -
  let ?x = "make_maps x"
  have d: "enumerates (map_of_nil (fsDirsMap ?x)) (dirs_order S)"
    and f: "enumerates (map_of_nil (fsFilesMap ?x)) (files_order S)"
    using assms(1,2) by simp_all
  have D: "dom (dirmap_of (dirs_order S) ?x) = post_strip (StripPrefix x) ` dom (map_of_nil (fsDirsMap x))"
    using dom_dirmap_of [OF d] by simp
  have P: "set (print_order S) = post_strip (StripPrefix x) ` dom (map_of_nil (fsDirsMap x))"
    using assms(3) D by (simp add: enumerates_def)
  have P1: "map fst (range_of (dirmap_of (dirs_order S) ?x) (print_order S)) = print_order S"
    using assms(3) by (intro map_fst_range_of) (simp add: enumerates_def)
  have F: "set (files_order S) = dom (map_of_nil (fsFilesMap x))"
    using assms(2) by (simp add: enumerates_def)
  have F1: "map fst (range_of (map_of_nil (fsFilesMap x)) (files_order S)) = files_order S"
    using F by (intro map_fst_range_of) simp
  have K: "map e_key (file_entries (files_order S) vnames ?x) = map (post_strip (StripPrefix x)) (files_order S)"
    using keys_file_entries(1) [OF f] by simp
  have Q: "map e_Path (file_entries (files_order S) vnames ?x) = map (post_strip (StripPrefix x)) (files_order S)"
    using keys_file_entries(2) [OF f] by simp
  have R1: "''/'' \<in> set (print_order S)" if "StripPrefix x \<in> dom (map_of_nil (fsDirsMap x))"
    unfolding P using that post_strip_prefix_itself [of "StripPrefix x"] by (metis imageI)
  have C: "post_strip (StripPrefix x) k \<in> set (print_order S) \<and> k \<in> set (files_order S)"
    if "k \<in> dom (map_of_nil (fsDirsMap x)) \<and> k \<in> dom (map_of_nil (fsFilesMap x))" for k
    unfolding P F using that by blast
  note T = emitted_text [OF assms(4)]
  show ?thesis
    using T P1 P F1 F C R1 D K Q post_strip_prefix_itself [of "StripPrefix x"]
    by (intro conjI allI impI) blast+
qed

theorem same_post_strip_keys_witness:
  "raw_text example_externals schedule_1 collected_generator =
     Inr (''package main'' @ nl @ nl
        @ ''import ('' @ nl
        @ tab @ dq @ ''github.com/jessevdk/go-assets'' @ dq @ nl
        @ tab @ dq @ ''time'' @ dq @ nl
        @ '')'' @ nl @ nl
        @ ''var __Assets'' @ (sha1_hex example_externals ''a/b.txt'') @ '' = []byte('' @ dq @ ''hi'' @ dq @ '')'' @ nl @ nl
        @ ''var Assets assets.FileSystem'' @ nl @ nl
        @ ''func init() {'' @ nl
        @ tab @ ''Assets = assets.FileSystem{'' @ nl
        @ tab @ tab @ ''Dirs: map[string][]string{'' @ dq @ ''/'' @ dq @ '':[]string{'' @ dq @ ''b.txt'' @ dq @ ''}, '' @ dq @ ''/c'' @ dq @ '':[]string{}},'' @ nl
        @ tab @ tab @ ''Files: map[string]*assets.File{'' @ nl
        @ tab @ tab @ tab @ dq @ ''/'' @ dq @ '': &assets.File{'' @ nl
        @ tab @ tab @ tab @ tab @ ''Path:     '' @ dq @ ''/'' @ dq @ '','' @ nl
        @ tab @ tab @ tab @ tab @ ''FileMode: 0x800001ed,'' @ nl
        @ tab @ tab @ tab @ tab @ ''MTime:    time.Unix(1, 1000000000),'' @ nl
        @ tab @ tab @ tab @ ''},'' @ nl
        @ tab @ tab @ tab @ dq @ ''/b.txt'' @ dq @ '': &assets.File{'' @ nl
        @ tab @ tab @ tab @ tab @ ''Path:     '' @ dq @ ''/b.txt'' @ dq @ '','' @ nl
        @ tab @ tab @ tab @ tab @ ''FileMode: 0x1a4,'' @ nl
        @ tab @ tab @ tab @ tab @ ''MTime:    time.Unix(1, 1000000000),'' @ nl
        @ tab @ tab @ tab @ tab @ ''Data:     __Assets'' @ (sha1_hex example_externals ''a/b.txt'') @ '','' @ nl
        @ tab @ tab @ tab @ ''},'' @ nl
        @ tab @ tab @ tab @ dq @ ''/c'' @ dq @ '': &assets.File{'' @ nl
        @ tab @ tab @ tab @ tab @ ''Path:     '' @ dq @ ''/c'' @ dq @ '','' @ nl
        @ tab @ tab @ tab @ tab @ ''FileMode: 0x800001ed,'' @ nl
        @ tab @ tab @ tab @ tab @ ''MTime:    time.Unix(1, 1000000000),'' @ nl
        @ tab @ tab @ tab @ ''},'' @ nl
        @ tab @ tab @ ''},'' @ nl
        @ tab @ tab @ ''Compressed: false,'' @ nl
        @ tab @ ''}'' @ nl
        @ ''}'' @ nl) \<and>
   ''/'' \<in> set (print_order schedule_1) \<and>
   ''a'' \<in> set (files_order schedule_1) \<and>
   post_strip ''a'' ''a'' = ''/'' \<and>
   post_strip ''a'' ''a/c'' \<in> set (print_order schedule_1) \<and>
   ''a/c'' \<in> set (files_order schedule_1)"
proof -
  have o: "blob_order schedule_1 = [''a'', ''a/b.txt'', ''a/c'']"
    "dirs_order schedule_1 = [''a'', ''a/c'']"
    "print_order schedule_1 = [''/'', ''/c'']"
    "files_order schedule_1 = [''a'', ''a/b.txt'', ''a/c'']"
    by (simp_all add: schedule_1_def)
  have g: "PackageName collected_generator = []" "VariableName collected_generator = []"
    "StripPrefix collected_generator = ''a''" "\<not> Compressed collected_generator"
    "map_of_nil (fsFilesMap collected_generator)
       = [''a'' \<mapsto> info_a, ''a/b.txt'' \<mapsto> info_b, ''a/c'' \<mapsto> info_c]"
    "map_of_nil (fsDirsMap collected_generator) = [''a'' \<mapsto> [''b.txt''], ''a/c'' \<mapsto> []]"
    by (simp_all add: collected_generator_def)
  have e1: "enumerates (map_of_nil (fsDirsMap collected_generator)) (dirs_order schedule_1)"
    and e2: "enumerates (map_of_nil (fsFilesMap collected_generator)) (files_order schedule_1)"
    using collected_enumerations by (simp_all add: o)
  have e3: "enumerates (dirmap_of (dirs_order schedule_1) (make_maps collected_generator))
              (print_order schedule_1)"
    unfolding o collected_dirmap by (auto simp: enumerates_def)
  have b: "blob_pass example_externals (blob_order schedule_1)
             (if VariableName collected_generator = [] then ''Assets''
              else VariableName collected_generator)
             collected_generator
           = Inr ([''a/b.txt'' \<mapsto> ''__Assets'' @ sha1_hex example_externals ''a/b.txt''],
                  [''var '' @ (''__Assets'' @ sha1_hex example_externals ''a/b.txt'') @ '' = []byte(''
                     @ dq @ ''hi'' @ dq @ '')'' @ nl,
                   nl])"
    using collected_blob_pass_value by (simp add: o g)
  note T = same_post_strip_keys [OF e1 e2 e3 b]
  have t: "raw_text example_externals schedule_1 collected_generator =
     Inr (''package main'' @ nl @ nl
        @ ''import ('' @ nl
        @ tab @ dq @ ''github.com/jessevdk/go-assets'' @ dq @ nl
        @ tab @ dq @ ''time'' @ dq @ nl
        @ '')'' @ nl @ nl
        @ ''var __Assets'' @ (sha1_hex example_externals ''a/b.txt'') @ '' = []byte('' @ dq @ ''hi'' @ dq @ '')'' @ nl @ nl
        @ ''var Assets assets.FileSystem'' @ nl @ nl
        @ ''func init() {'' @ nl
        @ tab @ ''Assets = assets.FileSystem{'' @ nl
        @ tab @ tab @ ''Dirs: map[string][]string{'' @ dq @ ''/'' @ dq @ '':[]string{'' @ dq @ ''b.txt'' @ dq @ ''}, '' @ dq @ ''/c'' @ dq @ '':[]string{}},'' @ nl
        @ tab @ tab @ ''Files: map[string]*assets.File{'' @ nl
        @ tab @ tab @ tab @ dq @ ''/'' @ dq @ '': &assets.File{'' @ nl
        @ tab @ tab @ tab @ tab @ ''Path:     '' @ dq @ ''/'' @ dq @ '','' @ nl
        @ tab @ tab @ tab @ tab @ ''FileMode: 0x800001ed,'' @ nl
        @ tab @ tab @ tab @ tab @ ''MTime:    time.Unix(1, 1000000000),'' @ nl
        @ tab @ tab @ tab @ ''},'' @ nl
        @ tab @ tab @ tab @ dq @ ''/b.txt'' @ dq @ '': &assets.File{'' @ nl
        @ tab @ tab @ tab @ tab @ ''Path:     '' @ dq @ ''/b.txt'' @ dq @ '','' @ nl
        @ tab @ tab @ tab @ tab @ ''FileMode: 0x1a4,'' @ nl
        @ tab @ tab @ tab @ tab @ ''MTime:    time.Unix(1, 1000000000),'' @ nl
        @ tab @ tab @ tab @ tab @ ''Data:     __Assets'' @ (sha1_hex example_externals ''a/b.txt'') @ '','' @ nl
        @ tab @ tab @ tab @ ''},'' @ nl
        @ tab @ tab @ tab @ dq @ ''/c'' @ dq @ '': &assets.File{'' @ nl
        @ tab @ tab @ tab @ tab @ ''Path:     '' @ dq @ ''/c'' @ dq @ '','' @ nl
        @ tab @ tab @ tab @ tab @ ''FileMode: 0x800001ed,'' @ nl
        @ tab @ tab @ tab @ tab @ ''MTime:    time.Unix(1, 1000000000),'' @ nl
        @ tab @ tab @ tab @ ''},'' @ nl
        @ tab @ tab @ ''},'' @ nl
        @ tab @ tab @ ''Compressed: false,'' @ nl
        @ tab @ ''}'' @ nl
        @ ''}'' @ nl)"
    unfolding T [THEN conjunct1] o collected_dirmap g(5) collected_ranges
    by (simp add: g header_def show_bool_def example_externals_fields example_numbers
        example_infos example_kinds collected_post_strip)
  have m: "StripPrefix collected_generator \<in> dom (map_of_nil (fsDirsMap collected_generator))"
    "StripPrefix collected_generator \<in> dom (map_of_nil (fsFilesMap collected_generator))"
    by (simp_all add: g)
  have r1: "''/'' \<in> set (print_order schedule_1)"
    using T [THEN conjunct2, THEN conjunct2, THEN conjunct2, THEN conjunct2, THEN conjunct2,
        THEN conjunct2, THEN conjunct1] m(1)
    by simp
  have r2: "StripPrefix collected_generator \<in> set (files_order schedule_1) \<and>
            post_strip (StripPrefix collected_generator) (StripPrefix collected_generator) = ''/''"
    using T [THEN conjunct2, THEN conjunct2, THEN conjunct2, THEN conjunct2, THEN conjunct2,
        THEN conjunct2, THEN conjunct2, THEN conjunct1] m(2)
    by simp
  have m3: "''a/c'' \<in> dom (map_of_nil (fsDirsMap collected_generator)) \<and>
        ''a/c'' \<in> dom (map_of_nil (fsFilesMap collected_generator))"
    by (simp add: g)
  have r3: "post_strip (StripPrefix collected_generator) ''a/c'' \<in> set (print_order schedule_1) \<and>
            ''a/c'' \<in> set (files_order schedule_1)"
    using T [THEN conjunct2, THEN conjunct2, THEN conjunct2, THEN conjunct2, THEN conjunct2,
        THEN conjunct1, THEN spec, of "''a/c''"] m3
    by (rule mp)
  show ?thesis
    using t r1 r2 r3 unfolding g(3) by simp
qed

end
